theory Spec2Isabelle
  imports Main "HOL-Library.AList"
begin

section \<open>JavaScript values\<close>

text \<open>
  The client of \<^verbatim>\<open>lib/client.js\<close> handles values that come out of
  \<^verbatim>\<open>JSON.parse\<close> or are handed in by the application. They are modelled by
  \<open>jsval\<close>: plain data, without functions, symbols or objects of another prototype than
  \<^verbatim>\<open>Object.prototype\<close> and \<^verbatim>\<open>Array.prototype\<close>.

  A JavaScript number is an IEEE double. The numbers of the model are the doubles
  without a fractional part (ids, status codes, milliseconds), the two infinities and
  \<^verbatim>\<open>NaN\<close>; zero and negative zero are both \<open>Num 0\<close>. Numbers with a fractional
  part are outside the model. Every integer of magnitude at most \<open>2^53\<close> is a double,
  and the sum of two doubles is their exact sum whenever that is such an integer; a sum
  of a larger magnitude is rounded, and that rounding is left to the environment below.

  An object is the association list of its own properties, the first binding of a name
  being its value.
\<close>

datatype jsval =
    Undefined
  | Null
  | Bool bool
  | Num int
  | NaN
  | PosInf
  | NegInf
  | Str string
  | Arr "jsval list"
  | Obj "(string \<times> jsval) list"

text \<open>
  Error objects. \<open>Error m\<close> is \<^verbatim>\<open>new Error(m)\<close>, \<open>TypeError m\<close> is what the
  runtime throws when a property of \<^verbatim>\<open>null\<close> or \<^verbatim>\<open>undefined\<close> is read, a
  non-function is called or an object cannot be converted to a primitive value, and
  \<open>External d\<close> is an error that comes from outside the client (thrown by
  \<^verbatim>\<open>JSON.parse\<close>, \<^verbatim>\<open>JSON.stringify\<close> or \<^verbatim>\<open>ws.send\<close>, or handed to
  \<^verbatim>\<open>ws.onerror\<close>). Every error is an object, hence truthy.
\<close>

datatype jserror = Error string | TypeError string | External string

text \<open>The result of \<^verbatim>\<open>ToNumber\<close>: an integer, \<^verbatim>\<open>NaN\<close>, or an infinity.\<close>

datatype number = Whole int | NotNumber | Plus_inf | Minus_inf

fun of_number :: "number \<Rightarrow> jsval" where
  "of_number (Whole i) = Num i"
| "of_number NotNumber = NaN"
| "of_number Plus_inf = PosInf"
| "of_number Minus_inf = NegInf"

text \<open>
  \<open>2^53\<close>, and the integers up to it in magnitude: they are doubles, and print as
  their decimal numeral.
\<close>

definition limit :: int where
  "limit = 9007199254740992"

definition exact :: "int \<Rightarrow> bool" where
  "exact i = (\<bar>i\<bar> \<le> limit)"

section \<open>What the client does not define\<close>

text \<open>
  An outbound protocol message as the client builds it: the object literal of
  \<^verbatim>\<open>request\<close> (\<^verbatim>\<open>nes: 'request'\<close>, with id, method, path, headers, payload) or
  of \<^verbatim>\<open>authenticate\<close> (\<^verbatim>\<open>nes: 'auth'\<close>, with id and token).
\<close>

datatype outmsg =
    RequestMsg nat jsval jsval jsval jsval
  | AuthMsg nat jsval

fun msg_id :: "outmsg \<Rightarrow> nat" where
  "msg_id (RequestMsg i m p h b) = i"
| "msg_id (AuthMsg i t) = i"

fun set_id :: "nat \<Rightarrow> outmsg \<Rightarrow> outmsg" where
  "set_id i (RequestMsg j m p h b) = RequestMsg i m p h b"
| "set_id i (AuthMsg j t) = AuthMsg i t"


text \<open>
  The built-ins and the transport are parameters of the model:
  \<^item> \<open>json_stringify\<close> and \<open>json_parse\<close> are \<^verbatim>\<open>JSON.stringify\<close> and
    \<^verbatim>\<open>JSON.parse\<close>, \<open>Inl\<close> being the exception they throw;
  \<^item> \<open>ws_send h text\<close> is \<open>Some e\<close> when \<^verbatim>\<open>send\<close> of transport \<open>h\<close> throws \<open>e\<close>;
  \<^item> \<open>str_to_num\<close> is \<^verbatim>\<open>ToNumber\<close> on strings;
  \<^item> \<open>number_text\<close> is \<^verbatim>\<open>ToString\<close> on the integers that are not \<open>exact\<close>
    (it prints \<^verbatim>\<open>1e+21\<close> for \<open>10^21\<close>);
  \<^item> \<open>double_add a b\<close> is the sum of the doubles \<open>a\<close> and \<open>b\<close>, that is
    \<open>a + b\<close> rounded to a double or an infinity; it is consulted only when
    \<open>a + b\<close> is not \<open>exact\<close>;
  \<^item> \<open>proto_call k\<close> describes \<^verbatim>\<open>Object.prototype\<close>, which the pending table
    \<^verbatim>\<open>{}\<close> inherits from: \<open>None\<close> when it has no property named \<open>k\<close>, and
    \<open>Some r\<close> when it has one, \<open>r\<close> being what calling that property as a callback
    does (\<open>Some e\<close>: it throws \<open>e\<close>).
\<close>

record env =
  json_stringify :: "outmsg \<Rightarrow> jserror + string"
  json_parse :: "string \<Rightarrow> jserror + jsval"
  ws_send :: "nat \<Rightarrow> string \<Rightarrow> jserror option"
  str_to_num :: "string \<Rightarrow> number"
  number_text :: "int \<Rightarrow> string"
  double_add :: "int \<Rightarrow> int \<Rightarrow> number"
  proto_call :: "string \<Rightarrow> jserror option option"

section \<open>Conversions\<close>

definition digit_char :: "nat \<Rightarrow> char" where
  "digit_char d = ''0123456789'' ! d"

text \<open>
  Decimal numeral of an integer that is not negative, as \<^verbatim>\<open>ToString\<close> prints it,
  and of a natural number.
\<close>

function numeral_of :: "int \<Rightarrow> string" where
  "numeral_of i =
     (if i < 10 then [digit_char (nat i)]
      else numeral_of (i div 10) @ [digit_char (nat (i mod 10))])"
  by pat_completeness auto
termination
  by (relation "measure nat") auto

declare numeral_of.simps [simp del]

definition dec :: "nat \<Rightarrow> string" where
  "dec n = numeral_of (int n)"

text \<open>\<^verbatim>\<open>ToString\<close> of an integer-valued number.\<close>

definition num_text :: "env \<Rightarrow> int \<Rightarrow> string" where
  "num_text E i =
     (if exact i then (if i < 0 then CHR ''-'' # numeral_of (- i) else numeral_of i)
      else number_text E i)"

text \<open>\<^verbatim>\<open>Array.prototype.join\<close> with the separator \<^verbatim>\<open>","\<close> on rendered elements.\<close>

fun join :: "string list \<Rightarrow> string" where
  "join [] = []"
| "join [x] = x"
| "join (x # y # zs) = x @ CHR '','' # join (y # zs)"

text \<open>The results of a list of conversions, or the first exception among them.\<close>

fun collect :: "('e + 'a) list \<Rightarrow> 'e + 'a list" where
  "collect [] = Inr []"
| "collect (Inl e # rs) = Inl e"
| "collect (Inr x # rs) = (case collect rs of Inl e \<Rightarrow> Inl e | Inr xs \<Rightarrow> Inr (x # xs))"

definition nullish :: "jsval \<Rightarrow> bool" where
  "nullish v = (v = Undefined \<or> v = Null)"

definition no_primitive :: jserror where
  "no_primitive = TypeError ''Cannot convert object to primitive value''"

text \<open>
  \<^verbatim>\<open>ToString\<close>, which JavaScript applies to a value used as a property key, to the
  operand of a string concatenation and to the argument of \<^verbatim>\<open>new Error\<close>. On an
  object it goes through \<^verbatim>\<open>ToPrimitive\<close>, which calls the methods \<^verbatim>\<open>toString\<close>
  and \<^verbatim>\<open>valueOf\<close> that it finds callable. A plain object inherits both from
  \<^verbatim>\<open>Object.prototype\<close> and prints as \<^verbatim>\<open>[object Object]\<close>; but an own property
  named \<^verbatim>\<open>toString\<close> hides the inherited method, and as its value is data
  (not a function) no method yields a primitive: the conversion throws a
  \<^verbatim>\<open>TypeError\<close>. An array prints its elements in order, separated by commas, with
  \<^verbatim>\<open>null\<close> and \<^verbatim>\<open>undefined\<close> elements printed as the empty string; it throws
  when the conversion of an element does.
\<close>

fun to_string :: "env \<Rightarrow> jsval \<Rightarrow> jserror + string" where
  "to_string E Undefined = Inr ''undefined''"
| "to_string E Null = Inr ''null''"
| "to_string E (Bool b) = Inr (if b then ''true'' else ''false'')"
| "to_string E (Num i) = Inr (num_text E i)"
| "to_string E NaN = Inr ''NaN''"
| "to_string E PosInf = Inr ''Infinity''"
| "to_string E NegInf = Inr ''-Infinity''"
| "to_string E (Str s) = Inr s"
| "to_string E (Arr vs) =
     (case collect (map (\<lambda>v. if v = Undefined \<or> v = Null then Inr [] else to_string E v) vs) of
        Inl e \<Rightarrow> Inl e
      | Inr ts \<Rightarrow> Inr (join ts))"
| "to_string E (Obj kvs) =
     (if ''toString'' \<in> fst ` set kvs then Inl no_primitive else Inr ''[object Object]'')"

fun truthy :: "jsval \<Rightarrow> bool" where
  "truthy Undefined = False"
| "truthy Null = False"
| "truthy (Bool b) = b"
| "truthy (Num i) = (i \<noteq> 0)"
| "truthy NaN = False"
| "truthy PosInf = True"
| "truthy NegInf = True"
| "truthy (Str s) = (s \<noteq> [])"
| "truthy (Arr vs) = True"
| "truthy (Obj kvs) = True"

text \<open>
  \<open>get_prop v p\<close> is the property read \<^verbatim>\<open>v.p\<close> on a value that is neither \<^verbatim>\<open>null\<close> nor
  \<^verbatim>\<open>undefined\<close> (there the read throws, and every caller below tests \<open>nullish\<close>
  first). It is used for the names \<^verbatim>\<open>nes id message statusCode payload headers error
  method path\<close> only, none of which a primitive, an array or \<^verbatim>\<open>Object.prototype\<close>
  defines, so a value without such an own property yields \<^verbatim>\<open>undefined\<close>.
\<close>

fun get_prop :: "jsval \<Rightarrow> string \<Rightarrow> jsval" where
  "get_prop (Obj kvs) p = (case map_of kvs p of None \<Rightarrow> Undefined | Some v \<Rightarrow> v)"
| "get_prop v p = Undefined"

text \<open>
  \<^verbatim>\<open>new Error(v)\<close>: the message is \<^verbatim>\<open>ToString(v)\<close> unless \<open>v\<close> is undefined;
  \<open>Inl\<close> is the exception of that conversion, thrown instead of an error being made.
\<close>

definition new_Error :: "env \<Rightarrow> jsval \<Rightarrow> jserror + jserror" where
  "new_Error E v =
     (if v = Undefined then Inr (Error [])
      else case to_string E v of
             Inl e \<Rightarrow> Inl e
           | Inr t \<Rightarrow> Inr (Error t))"

text \<open>
  \<^verbatim>\<open>ToPrimitive\<close>: an array or an object becomes the string it prints as, or the
  conversion throws.
\<close>

fun to_primitive :: "env \<Rightarrow> jsval \<Rightarrow> jserror + jsval" where
  "to_primitive E (Arr vs) =
     (case to_string E (Arr vs) of Inl e \<Rightarrow> Inl e | Inr t \<Rightarrow> Inr (Str t))"
| "to_primitive E (Obj kvs) =
     (case to_string E (Obj kvs) of Inl e \<Rightarrow> Inl e | Inr t \<Rightarrow> Inr (Str t))"
| "to_primitive E v = Inr v"

fun is_Str :: "jsval \<Rightarrow> bool" where
  "is_Str (Str s) = True"
| "is_Str v = False"

text \<open>The text of a primitive value; its conversion does not throw.\<close>

definition prim_text :: "env \<Rightarrow> jsval \<Rightarrow> string" where
  "prim_text E p = (case to_string E p of Inl e \<Rightarrow> [] | Inr t \<Rightarrow> t)"

text \<open>\<^verbatim>\<open>ToNumber\<close> on the primitives that are not strings.\<close>

fun prim_number :: "jsval \<Rightarrow> number" where
  "prim_number Null = Whole 0"
| "prim_number (Bool b) = Whole (if b then 1 else 0)"
| "prim_number (Num i) = Whole i"
| "prim_number PosInf = Plus_inf"
| "prim_number NegInf = Minus_inf"
| "prim_number v = NotNumber"

text \<open>\<^verbatim>\<open>ToNumber\<close>.\<close>

definition to_number :: "env \<Rightarrow> jsval \<Rightarrow> jserror + number" where
  "to_number E v =
     (case to_primitive E v of
        Inl e \<Rightarrow> Inl e
      | Inr (Str t) \<Rightarrow> Inr (str_to_num E t)
      | Inr p \<Rightarrow> Inr (prim_number p))"

text \<open>
  The sum of two numbers. The sum of two integers is their exact sum when that is an
  exact integer; otherwise the rounded sum is asked of the environment. An infinity
  absorbs what is added to it, except the opposite infinity, which gives \<^verbatim>\<open>NaN\<close>.
\<close>

fun add :: "env \<Rightarrow> number \<Rightarrow> number \<Rightarrow> number" where
  "add E (Whole a) (Whole b) = (if exact (a + b) then Whole (a + b) else double_add E a b)"
| "add E NotNumber y = NotNumber"
| "add E x NotNumber = NotNumber"
| "add E Plus_inf Minus_inf = NotNumber"
| "add E Minus_inf Plus_inf = NotNumber"
| "add E Plus_inf y = Plus_inf"
| "add E x Plus_inf = Plus_inf"
| "add E Minus_inf y = Minus_inf"
| "add E x Minus_inf = Minus_inf"

text \<open>
  The operator \<^verbatim>\<open>+\<close>: both operands go through \<^verbatim>\<open>ToPrimitive\<close>, the left one
  first; then concatenation as soon as one of them is a string, addition of numbers
  otherwise.
\<close>

definition js_add :: "env \<Rightarrow> jsval \<Rightarrow> jsval \<Rightarrow> jserror + jsval" where
  "js_add E a b =
     (case to_primitive E a of
        Inl e \<Rightarrow> Inl e
      | Inr pa \<Rightarrow>
          (case to_primitive E b of
             Inl e \<Rightarrow> Inl e
           | Inr pb \<Rightarrow>
               if is_Str pa \<or> is_Str pb then Inr (Str (prim_text E pa @ prim_text E pb))
               else Inr (of_number (add E (prim_number pa) (prim_number pb)))))"

text \<open>The smaller of two numbers: \<^verbatim>\<open>NaN\<close> as soon as one of them is.\<close>

fun least :: "number \<Rightarrow> number \<Rightarrow> number" where
  "least (Whole a) (Whole b) = Whole (min a b)"
| "least NotNumber y = NotNumber"
| "least x NotNumber = NotNumber"
| "least Minus_inf y = Minus_inf"
| "least x Minus_inf = Minus_inf"
| "least Plus_inf y = y"
| "least x Plus_inf = x"

text \<open>\<^verbatim>\<open>Math.min\<close> of two values, which converts both to numbers, the first one first.\<close>

definition math_min :: "env \<Rightarrow> jsval \<Rightarrow> jsval \<Rightarrow> jserror + jsval" where
  "math_min E a b =
     (case to_number E a of
        Inl e \<Rightarrow> Inl e
      | Inr x \<Rightarrow>
          (case to_number E b of
             Inl e \<Rightarrow> Inl e
           | Inr y \<Rightarrow> Inr (of_number (least x y))))"

text \<open>\<^verbatim>\<open>v >= n\<close> and \<^verbatim>\<open>v <= n\<close> for a number literal \<open>n\<close>: false on \<^verbatim>\<open>NaN\<close>.\<close>

definition js_ge :: "env \<Rightarrow> jsval \<Rightarrow> int \<Rightarrow> jserror + bool" where
  "js_ge E v n =
     (case to_number E v of
        Inl e \<Rightarrow> Inl e
      | Inr (Whole x) \<Rightarrow> Inr (n \<le> x)
      | Inr NotNumber \<Rightarrow> Inr False
      | Inr Plus_inf \<Rightarrow> Inr True
      | Inr Minus_inf \<Rightarrow> Inr False)"

definition js_le :: "env \<Rightarrow> jsval \<Rightarrow> int \<Rightarrow> jserror + bool" where
  "js_le E v n =
     (case to_number E v of
        Inl e \<Rightarrow> Inl e
      | Inr (Whole x) \<Rightarrow> Inr (x \<le> n)
      | Inr NotNumber \<Rightarrow> Inr False
      | Inr Plus_inf \<Rightarrow> Inr False
      | Inr Minus_inf \<Rightarrow> Inr True)"

section \<open>The client and its world\<close>

text \<open>
  Functions of the source are closures; they are represented by data. \<open>AppCb c\<close> is a
  callback of the application, opaque and named by \<open>c\<close>: calling it is recorded in the
  trace, and it is assumed to return without calling back into the client and without
  throwing. \<open>ReconnectCb\<close> is the function that \<^verbatim>\<open>_reconnect\<close> passes to
  \<^verbatim>\<open>_connect\<close>. \<open>RequestK cb\<close> and \<open>AuthK cb\<close> are the functions that
  \<^verbatim>\<open>request\<close> and \<^verbatim>\<open>authenticate\<close> pass to \<^verbatim>\<open>_send\<close>, closed over their
  \<^verbatim>\<open>callback\<close>. Every operation is given a function as its callback: a call that
  leaves the callback out is outside the model.
\<close>

datatype cb = AppCb nat | ReconnectCb

datatype pending = RequestK cb | AuthK cb

datatype arg = AErr jserror | AVal jsval

fun arg_truthy :: "arg \<Rightarrow> bool" where
  "arg_truthy (AErr e) = True"
| "arg_truthy (AVal v) = truthy v"

text \<open>
  What the client does to the outside, in the order it happens: the three hooks, calls of
  application callbacks with their arguments, the transport operations, timers, and an
  exception that leaves a handler. \<open>Deliver k p err u\<close> records that the callback \<open>p\<close>
  stored in the pending table under key \<open>k\<close> was taken out and called with
  \<open>(err, u)\<close>.
\<close>

datatype effect =
    OnError arg
  | OnConnect
  | OnBroadcast jsval
  | AppCallback nat "arg list"
  | NewWS nat
  | WsSend nat string
  | WsClose nat
  | SetTimeout jsval
  | Deliver string pending "jserror option" jsval
  | Uncaught jserror

datatype ready_state = CONNECTING | OPEN | CLOSING | CLOSED

text \<open>
  A transport object made by \<^verbatim>\<open>_connect\<close>, with its observable ready state and the
  variables its four handlers are closed over.
\<close>

record socket =
  readyState :: ready_state
  sentCallback :: bool
  sock_auth :: jsval
  sock_callback :: cb

text \<open>The reconnection policy \<^verbatim>\<open>this._reconnection\<close>.\<close>

record reconn =
  wait :: jsval
  delay :: jsval
  maxDelay :: jsval
  auth :: jsval

text \<open>
  The fields of \<^verbatim>\<open>Client\<close> (\<^verbatim>\<open>_url _settings _ws _reconnection _ids _requests\<close>),
  followed by the world around it: every transport made so far (\<open>ws\<close> is an index into
  it), the timers that are scheduled and have not fired, and the trace.
  \<^verbatim>\<open>_requests\<close> is the list of own properties in insertion order; all its keys are
  decimal numerals of increasing ids, so this is also the order of \<^verbatim>\<open>Object.keys\<close>.
\<close>

record client =
  url :: string
  settings :: jsval
  ws :: "nat option"
  reconnection :: "reconn option"
  ids :: nat
  requests :: "(string \<times> pending) list"
  sockets :: "socket list"
  timers :: "jsval list"
  trace :: "effect list"

type_synonym result = "jserror option \<times> client"

definition Client :: "string \<Rightarrow> jsval \<Rightarrow> client" where
  "Client u options =
     \<lparr>url = u, settings = options, ws = None, reconnection = None, ids = 0,
      requests = [], sockets = [], timers = [], trace = []\<rparr>"

definition emit :: "effect \<Rightarrow> client \<Rightarrow> client" where
  "emit e s = s\<lparr>trace := trace s @ [e]\<rparr>"

text \<open>
  The ready state of transport \<open>h\<close>. Handles are made by \<^verbatim>\<open>_connect\<close> only, so
  they are indices of \<open>sockets\<close>; the other case is there to keep the function total.
\<close>

definition ready :: "client \<Rightarrow> nat \<Rightarrow> ready_state" where
  "ready s h = (if h < length (sockets s) then readyState (sockets s ! h) else CLOSED)"

definition set_ready :: "nat \<Rightarrow> ready_state \<Rightarrow> client \<Rightarrow> client" where
  "set_ready h r s = s\<lparr>sockets := (sockets s)[h := (sockets s ! h)\<lparr>readyState := r\<rparr>]\<rparr>"

section \<open>Codec\<close>

definition parse :: "env \<Rightarrow> string \<Rightarrow> (jserror option \<Rightarrow> jsval \<Rightarrow> 'a) \<Rightarrow> 'a" where
  "parse E message next =
     (case json_parse E message of
        Inl err \<Rightarrow> next (Some err) Null
      | Inr obj \<Rightarrow> next None obj)"

definition stringify :: "env \<Rightarrow> outmsg \<Rightarrow> (jserror option \<Rightarrow> string \<Rightarrow> 'a) \<Rightarrow> 'a" where
  "stringify E message next =
     (case json_stringify E message of
        Inl err \<Rightarrow> next (Some err) []
      | Inr string \<Rightarrow> next None string)"

section \<open>Reconnection\<close>

text \<open>
  \<^verbatim>\<open>_reconnect\<close>: with an active policy, add the delay to the accumulated wait and
  schedule the timer for the smaller of the wait and the cap. The addition
  \<^verbatim>\<open>wait += delay\<close> and \<^verbatim>\<open>Math.min\<close> convert their operands and throw when a
  conversion does; the new wait is stored before \<^verbatim>\<open>Math.min\<close> is called.
\<close>

definition reconnect :: "env \<Rightarrow> client \<Rightarrow> result" where
  "reconnect E s =
     (case reconnection s of
        None \<Rightarrow> (None, s)
      | Some r \<Rightarrow>
          (case js_add E (wait r) (delay r) of
             Inl e \<Rightarrow> (Some e, s)
           | Inr w \<Rightarrow>
               let s1 = s\<lparr>reconnection := Some (r\<lparr>wait := w\<rparr>)\<rparr>
               in case math_min E w (maxDelay r) of
                    Inl e \<Rightarrow> (Some e, s1)
                  | Inr timeout \<Rightarrow>
                      (None, emit (SetTimeout timeout) (s1\<lparr>timers := timers s1 @ [timeout]\<rparr>))))"

text \<open>
  Calling a callback. The function of \<^verbatim>\<open>_reconnect\<close> tests its first argument:
  \<^verbatim>\<open>if (err) { self.onError(err); return self._reconnect(); }\<close>.
\<close>

fun call_cb :: "env \<Rightarrow> cb \<Rightarrow> arg list \<Rightarrow> client \<Rightarrow> result" where
  "call_cb E (AppCb c) args s = (None, emit (AppCallback c args) s)"
| "call_cb E ReconnectCb [] s = (None, s)"
| "call_cb E ReconnectCb (err # rest) s =
     (if arg_truthy err then reconnect E (emit (OnError err) s) else (None, s))"

section \<open>Requests\<close>

text \<open>
  The error of \<^verbatim>\<open>new Error('Received unexpected response type: ' + update.nes)\<close>;
  \<open>Inl\<close> is the exception of the concatenation, which converts the kind to a string.
\<close>

definition unexpected :: "env \<Rightarrow> jsval \<Rightarrow> jserror + jserror" where
  "unexpected E nes =
     (case to_string E nes of
        Inl e \<Rightarrow> Inl e
      | Inr t \<Rightarrow> Inr (Error (''Received unexpected response type: '' @ t)))"

definition null_read :: "string \<Rightarrow> jserror" where
  "null_read p = TypeError (''Cannot read property '' @ p @ '' of null or undefined'')"

text \<open>
  The test \<^verbatim>\<open>update.statusCode >= 400 && update.statusCode <= 599\<close>: the second
  comparison is made only when the first one holds.
\<close>

definition is_error_status :: "env \<Rightarrow> jsval \<Rightarrow> jserror + bool" where
  "is_error_status E v =
     (case js_ge E v 400 of
        Inl e \<Rightarrow> Inl e
      | Inr ge \<Rightarrow> if ge then js_le E v 599 else Inr False)"

text \<open>The function that \<^verbatim>\<open>request\<close> hands to \<^verbatim>\<open>_send\<close> (lines 196 to 209).\<close>

fun request_cb :: "env \<Rightarrow> cb \<Rightarrow> jserror option \<Rightarrow> jsval \<Rightarrow> client \<Rightarrow> result" where
  "request_cb E callback (Some err) update s = call_cb E callback [AErr err] s"
| "request_cb E callback None update s =
     (if nullish update then (Some (null_read ''nes''), s)
      else if get_prop update ''nes'' \<noteq> Str ''response'' then
        (case unexpected E (get_prop update ''nes'') of
           Inl e \<Rightarrow> (Some e, s)
         | Inr err \<Rightarrow> (None, emit (OnError (AErr err)) s))
      else
        (case is_error_status E (get_prop update ''statusCode'') of
           Inl e \<Rightarrow> (Some e, s)
         | Inr failed \<Rightarrow>
             if failed then
               (if nullish (get_prop update ''payload'') then (Some (null_read ''message''), s)
                else case new_Error E (get_prop (get_prop update ''payload'') ''message'') of
                       Inl e \<Rightarrow> (Some e, s)
                     | Inr err \<Rightarrow>
                         call_cb E callback
                           [AErr err, AVal (get_prop update ''payload''),
                            AVal (get_prop update ''statusCode''),
                            AVal (get_prop update ''headers'')] s)
             else call_cb E callback
                    [AVal Null, AVal (get_prop update ''payload''),
                     AVal (get_prop update ''statusCode''),
                     AVal (get_prop update ''headers'')] s))"

text \<open>The function that \<^verbatim>\<open>authenticate\<close> hands to \<^verbatim>\<open>_send\<close> (lines 252 to 264).\<close>

fun authenticate_cb :: "env \<Rightarrow> cb \<Rightarrow> jserror option \<Rightarrow> jsval \<Rightarrow> client \<Rightarrow> result" where
  "authenticate_cb E callback (Some err) update s = call_cb E callback [AErr err] s"
| "authenticate_cb E callback None update s =
     (if nullish update then (Some (null_read ''nes''), s)
      else if get_prop update ''nes'' \<noteq> Str ''auth'' then
        (case unexpected E (get_prop update ''nes'') of
           Inl e \<Rightarrow> (Some e, s)
         | Inr err \<Rightarrow> (None, emit (OnError (AErr err)) s))
      else if truthy (get_prop update ''error'') then
        (case new_Error E (get_prop update ''error'') of
           Inl e \<Rightarrow> (Some e, s)
         | Inr err \<Rightarrow> call_cb E callback [AErr err] s)
      else call_cb E callback [AVal Null] s)"

fun call_pending :: "env \<Rightarrow> pending \<Rightarrow> jserror option \<Rightarrow> jsval \<Rightarrow> client \<Rightarrow> result" where
  "call_pending E (RequestK callback) err update s = request_cb E callback err update s"
| "call_pending E (AuthK callback) err update s = authenticate_cb E callback err update s"

text \<open>
  \<^verbatim>\<open>++this._ids\<close> on a double: the successor, until the counter has reached
  \<open>2^53\<close>, where adding one rounds back to \<open>2^53\<close>.
\<close>

definition next_id :: "nat \<Rightarrow> nat" where
  "next_id n = (if int n < limit then n + 1 else n)"

text \<open>The property key of the id \<open>i\<close>: the text of the number.\<close>

definition key :: "env \<Rightarrow> nat \<Rightarrow> string" where
  "key E i = num_text E (int i)"

text \<open>
  The test \<^verbatim>\<open>!this._ws || this._ws.readyState !== WS.OPEN\<close> of \<^verbatim>\<open>_send\<close>:
  the transport to send on, if there is one and it is open.
\<close>

definition open_ws :: "client \<Rightarrow> nat option" where
  "open_ws s =
     (case ws s of
        None \<Rightarrow> None
      | Some h \<Rightarrow> if ready s h \<noteq> OPEN then None else Some h)"

text \<open>
  \<^verbatim>\<open>_send\<close>. The id is taken by \<^verbatim>\<open>++this._ids\<close> before the message is
  serialised; the callback is stored under the id only when serialisation succeeded, and
  taken out again when the transport's \<^verbatim>\<open>send\<close> throws.
\<close>

definition send :: "env \<Rightarrow> outmsg \<Rightarrow> pending \<Rightarrow> client \<Rightarrow> result" where
  "send E request callback s =
     (case open_ws s of
        None \<Rightarrow> call_pending E callback (Some (Error ''Disconnected'')) Undefined s
      | Some h \<Rightarrow>
          let s1 = s\<lparr>ids := next_id (ids s)\<rparr>;
              request' = set_id (ids s1) request
          in stringify E request' (\<lambda>err encoded.
               case err of
                 Some e \<Rightarrow> call_pending E callback (Some e) Undefined s1
               | None \<Rightarrow>
                   let s2 = s1\<lparr>requests :=
                                AList.update (key E (msg_id request')) callback (requests s1)\<rparr>
                   in case ws_send E h encoded of
                        None \<Rightarrow> (None, emit (WsSend h encoded) s2)
                      | Some e \<Rightarrow>
                          call_pending E callback (Some e) Undefined
                            (s2\<lparr>requests :=
                                  AList.delete (key E (msg_id request')) (requests s2)\<rparr>)))"

text \<open>
  \<^verbatim>\<open>request\<close>: a string is the path of a \<^verbatim>\<open>GET\<close>; reading a property of
  \<^verbatim>\<open>null\<close> or \<^verbatim>\<open>undefined\<close> options throws to the caller.
\<close>

definition request :: "env \<Rightarrow> jsval \<Rightarrow> cb \<Rightarrow> client \<Rightarrow> result" where
  "request E options callback s =
     (let options' = (case options of
                        Str p \<Rightarrow> Obj [(''method'', Str ''GET''), (''path'', Str p)]
                      | _ \<Rightarrow> options)
      in if nullish options' then (Some (null_read ''method''), s)
         else send E (RequestMsg 0 (get_prop options' ''method'') (get_prop options' ''path'')
                        (get_prop options' ''headers'') (get_prop options' ''payload''))
                (RequestK callback) s)"

definition authenticate :: "env \<Rightarrow> jsval \<Rightarrow> cb \<Rightarrow> client \<Rightarrow> result" where
  "authenticate E token callback s = send E (AuthMsg 0 token) (AuthK callback) s"

section \<open>Connection\<close>

text \<open>
  \<^verbatim>\<open>_connect\<close> makes a new transport, in state \<^verbatim>\<open>CONNECTING\<close>, installs it
  as \<^verbatim>\<open>this._ws\<close> and gives it four handlers, which follow. The constructor
  \<^verbatim>\<open>new WS(url, settings)\<close> is assumed not to throw.
\<close>

definition connect' :: "jsval \<Rightarrow> cb \<Rightarrow> client \<Rightarrow> client" where
  "connect' a callback s =
     (let h = length (sockets s)
      in emit (NewWS h)
           (s\<lparr>sockets := sockets s @
                  [\<lparr>readyState = CONNECTING, sentCallback = False,
                    sock_auth = a, sock_callback = callback\<rparr>],
              ws := Some h\<rparr>))"

definition set_sentCallback :: "nat \<Rightarrow> client \<Rightarrow> client" where
  "set_sentCallback h s = s\<lparr>sockets := (sockets s)[h := (sockets s ! h)\<lparr>sentCallback := True\<rparr>]\<rparr>"

definition ws_onopen :: "env \<Rightarrow> nat \<Rightarrow> client \<Rightarrow> result" where
  "ws_onopen E h s =
     (let k = sockets s ! h
      in if \<not> sentCallback k then
           (let s1 = emit OnConnect (set_sentCallback h s)
            in if \<not> truthy (sock_auth k) then call_cb E (sock_callback k) [] s1
               else authenticate E (sock_auth k) (sock_callback k) s1)
         else (None, s))"

definition ws_onerror :: "env \<Rightarrow> nat \<Rightarrow> jserror \<Rightarrow> client \<Rightarrow> result" where
  "ws_onerror E h err s =
     (let k = sockets s ! h
      in if \<not> sentCallback k then
           call_cb E (sock_callback k) [AErr err] (set_sentCallback h s)
         else (None, emit (OnError (AErr err)) s))"

text \<open>
  \<^verbatim>\<open>connect\<close>. The options are \<^verbatim>\<open>reconnect\<close>, \<^verbatim>\<open>delay\<close>,
  \<^verbatim>\<open>maxDelay\<close> and \<^verbatim>\<open>auth\<close>, each \<open>Undefined\<close> when the property is
  absent. \<open>OnlyCallback c\<close> is the call \<^verbatim>\<open>connect(callback)\<close>, where the options
  become \<^verbatim>\<open>{}\<close>.
\<close>

record options =
  opt_reconnect :: jsval
  opt_delay :: jsval
  opt_maxDelay :: jsval
  opt_auth :: jsval

datatype connect_args = OnlyCallback cb | WithOptions options cb

definition no_options :: options where
  "no_options = \<lparr>opt_reconnect = Undefined, opt_delay = Undefined,
                  opt_maxDelay = Undefined, opt_auth = Undefined\<rparr>"

text \<open>\<^verbatim>\<open>x || d\<close> for a number literal \<open>d\<close>: \<open>x\<close> when it is truthy.\<close>

definition or_default :: "jsval \<Rightarrow> int \<Rightarrow> jsval" where
  "or_default x d = (if truthy x then x else Num d)"

definition connect :: "connect_args \<Rightarrow> client \<Rightarrow> client" where
  "connect args s =
     (let (opts, callback) =
            (case args of
               OnlyCallback c \<Rightarrow> (no_options, c)
             | WithOptions opts c \<Rightarrow> (opts, c));
          s1 = (if opt_reconnect opts \<noteq> Bool False then
                  s\<lparr>reconnection := Some \<lparr>wait = Num 0,
                                            delay = or_default (opt_delay opts) 1000,
                                            maxDelay = or_default (opt_maxDelay opts) 5000,
                                            auth = opt_auth opts\<rparr>\<rparr>
                else s\<lparr>reconnection := None\<rparr>)
      in connect' (opt_auth opts) callback s1)"

text \<open>\<^verbatim>\<open>ws.close()\<close>: the transport goes to \<^verbatim>\<open>CLOSING\<close>.\<close>

definition ws_close :: "nat \<Rightarrow> client \<Rightarrow> client" where
  "ws_close h s = emit (WsClose h) (set_ready h CLOSING s)"

definition disconnect :: "client \<Rightarrow> client" where
  "disconnect s =
     (let s1 = s\<lparr>reconnection := None\<rparr>
      in case ws s1 of
           None \<Rightarrow> s1
         | Some h \<Rightarrow>
             if ready s1 h = OPEN \<or> ready s1 h = CONNECTING then ws_close h s1 else s1)"

section \<open>Close handling\<close>

text \<open>
  The loop of \<^verbatim>\<open>_onClose\<close> over \<^verbatim>\<open>Object.keys(this._requests)\<close>: read the
  callback, delete the entry, call the callback with the error. Calling an entry that is
  not there would throw. An exception of a callback ends the loop.
\<close>

fun flush :: "env \<Rightarrow> jserror \<Rightarrow> string list \<Rightarrow> client \<Rightarrow> result" where
  "flush E error [] s = (None, s)"
| "flush E error (i # rest) s =
     (let callback = map_of (requests s) i;
          s1 = s\<lparr>requests := AList.delete i (requests s)\<rparr>
      in case callback of
           None \<Rightarrow> (Some (TypeError ''callback is not a function''), s1)
         | Some c \<Rightarrow>
             (case call_pending E c (Some error) Undefined (emit (Deliver i c (Some error) Undefined) s1) of
                (Some e, s2) \<Rightarrow> (Some e, s2)
              | (None, s2) \<Rightarrow> flush E error rest s2))"

definition onClose :: "env \<Rightarrow> client \<Rightarrow> result" where
  "onClose E s =
     (let s1 = s\<lparr>ws := None\<rparr>
      in case flush E (Error ''Disconnected'') (map fst (requests s1)) s1 of
           (Some e, s2) \<Rightarrow> (Some e, s2)
         | (None, s2) \<Rightarrow> reconnect E s2)"

text \<open>
  The function that \<^verbatim>\<open>_reconnect\<close> gives to \<^verbatim>\<open>setTimeout\<close>. It reads
  \<^verbatim>\<open>self._reconnection.auth\<close> before it calls \<^verbatim>\<open>_connect\<close>.
\<close>

definition timer_fired :: "client \<Rightarrow> result" where
  "timer_fired s =
     (case reconnection s of
        None \<Rightarrow> (Some (null_read ''auth''), s)
      | Some r \<Rightarrow> (None, connect' (auth r) ReconnectCb s))"

section \<open>Inbound messages\<close>

text \<open>
  \<^verbatim>\<open>_onMessage\<close>. A broadcast goes to the hook. Otherwise the entry under
  \<^verbatim>\<open>update.id\<close> is read and deleted; the id is converted to a property key, which
  throws when the conversion to a string does. When the table has no such own property
  the read falls through to \<^verbatim>\<open>Object.prototype\<close>.
\<close>

definition onMessage :: "env \<Rightarrow> string \<Rightarrow> client \<Rightarrow> result" where
  "onMessage E data s =
     parse E data (\<lambda>err update.
       case err of
         Some e \<Rightarrow> (None, emit (OnError (AErr e)) s)
       | None \<Rightarrow>
           if nullish update then (Some (null_read ''nes''), s)
           else if get_prop update ''nes'' = Str ''broadcast'' then
             (None, emit (OnBroadcast (get_prop update ''message'')) s)
           else
             (case to_string E (get_prop update ''id'') of
                Inl e \<Rightarrow> (Some e, s)
              | Inr i \<Rightarrow>
                  let callback = map_of (requests s) i;
                      s1 = s\<lparr>requests := AList.delete i (requests s)\<rparr>
                  in case callback of
                       Some c \<Rightarrow> call_pending E c None update (emit (Deliver i c None update) s1)
                     | None \<Rightarrow>
                         (case proto_call E i of
                            None \<Rightarrow>
                              (None, emit (OnError (AErr (Error ''Received response for missing request''))) s1)
                          | Some r \<Rightarrow> (r, s1))))"

section \<open>Events\<close>

text \<open>
  Everything that can happen to a client: the application calls one of the four
  operations, a transport fires one of its four events, or a timer fires. The transport
  follows the WebSocket interface: it is \<^verbatim>\<open>OPEN\<close> when \<^verbatim>\<open>onopen\<close> runs and
  \<^verbatim>\<open>CLOSED\<close> when \<^verbatim>\<open>onclose\<close> runs. An exception that leaves the handler of a
  transport event or of a timer, or that an operation throws to the application, is
  recorded in the trace.
\<close>

datatype event =
    Connect connect_args
  | Disconnect
  | Request jsval cb
  | Authenticate jsval cb
  | Opened nat
  | Failed nat jserror
  | Closed nat
  | Message nat string
  | Timer nat

fun finish :: "result \<Rightarrow> client" where
  "finish (None, s) = s"
| "finish (Some e, s) = emit (Uncaught e) s"

definition remove_nth :: "nat \<Rightarrow> 'a list \<Rightarrow> 'a list" where
  "remove_nth i xs = take i xs @ drop (Suc i) xs"

fun handle :: "env \<Rightarrow> event \<Rightarrow> client \<Rightarrow> result" where
  "handle E (Connect args) s = (None, connect args s)"
| "handle E Disconnect s = (None, disconnect s)"
| "handle E (Request options callback) s = request E options callback s"
| "handle E (Authenticate token callback) s = authenticate E token callback s"
| "handle E (Opened h) s =
     (if h < length (sockets s) then ws_onopen E h (set_ready h OPEN s) else (None, s))"
| "handle E (Failed h err) s =
     (if h < length (sockets s) then ws_onerror E h err s else (None, s))"
| "handle E (Closed h) s =
     (if h < length (sockets s) then onClose E (set_ready h CLOSED s) else (None, s))"
| "handle E (Message h data) s =
     (if h < length (sockets s) then onMessage E data s else (None, s))"
| "handle E (Timer n) s =
     (if n < length (timers s) then timer_fired (s\<lparr>timers := remove_nth n (timers s)\<rparr>)
      else (None, s))"

definition step :: "env \<Rightarrow> client \<Rightarrow> event \<Rightarrow> client" where
  "step E s ev = finish (handle E ev s)"

definition run :: "env \<Rightarrow> client \<Rightarrow> event list \<Rightarrow> client" where
  "run E s evs = foldl (step E) s evs"

section \<open>Notions used in the statements\<close>

text \<open>The application-level callback a stored function is closed over.\<close>

fun callback_of :: "pending \<Rightarrow> cb" where
  "callback_of (RequestK c) = c"
| "callback_of (AuthK c) = c"

text \<open>
  The invariant of the pending table: its keys, in the order of the table, are the
  decimal numerals of strictly increasing ids among \<open>1, \<dots>, ids\<close>, the ids that
  \<^verbatim>\<open>_send\<close> has handed out, and the counter has not passed \<open>2^53\<close>. It is
  stated so that it can be evaluated: the list of keys is the list of the numerals of
  those ids, in increasing order, whose numeral is a key.
\<close>

definition keys_ok :: "string list \<Rightarrow> nat \<Rightarrow> bool" where
  "keys_ok ks n = (ks = map dec (filter (\<lambda>i. dec i \<in> set ks) [1..<Suc n]))"

definition table_ok :: "client \<Rightarrow> bool" where
  "table_ok s = (keys_ok (map fst (requests s)) (ids s) \<and> int (ids s) \<le> limit)"

text \<open>The timeouts passed to \<^verbatim>\<open>setTimeout\<close>, in the order of the calls.\<close>

fun scheduled :: "effect list \<Rightarrow> jsval list" where
  "scheduled [] = []"
| "scheduled (SetTimeout t # es) = t # scheduled es"
| "scheduled (e # es) = scheduled es"

text \<open>The calls of callbacks taken out of the pending table, in order.\<close>

fun deliveries :: "effect list \<Rightarrow> effect list" where
  "deliveries [] = []"
| "deliveries (Deliver k p err u # es) = Deliver k p err u # deliveries es"
| "deliveries (e # es) = deliveries es"

text \<open>The calls of application callbacks, in order.\<close>

fun app_calls :: "effect list \<Rightarrow> effect list" where
  "app_calls [] = []"
| "app_calls (AppCallback c as # es) = AppCallback c as # app_calls es"
| "app_calls (e # es) = app_calls es"


text \<open>The transports opened, in order.\<close>

fun opened :: "effect list \<Rightarrow> nat list" where
  "opened [] = []"
| "opened (NewWS h # es) = h # opened es"
| "opened (e # es) = opened es"

fun is_Connect :: "event \<Rightarrow> bool" where
  "is_Connect (Connect args) = True"
| "is_Connect ev = False"



text \<open>
  The key under which an inbound message is looked up: \<^verbatim>\<open>update.id\<close> as a
  property key, when that conversion does not throw (\<open>keyed\<close>).
\<close>

definition keyed :: "env \<Rightarrow> jsval \<Rightarrow> bool" where
  "keyed E update = (case to_string E (get_prop update ''id'') of Inl e \<Rightarrow> False | Inr k \<Rightarrow> True)"

definition id_key :: "env \<Rightarrow> jsval \<Rightarrow> string" where
  "id_key E update = (case to_string E (get_prop update ''id'') of Inl e \<Rightarrow> [] | Inr k \<Rightarrow> k)"

text \<open>
  An inbound message that \<^verbatim>\<open>_onMessage\<close> looks up in the pending table: an object
  that is not a broadcast and whose id makes a property key.
\<close>

definition correlated :: "env \<Rightarrow> jsval \<Rightarrow> bool" where
  "correlated E update =
     (\<not> nullish update \<and> get_prop update ''nes'' \<noteq> Str ''broadcast'' \<and> keyed E update)"










text \<open>The counter does not go back and no key leaves the table.\<close>

definition grows :: "client \<Rightarrow> client \<Rightarrow> bool" where
  "grows s s' = (ids s \<le> ids s' \<and> set (map fst (requests s)) \<subseteq> set (map fst (requests s')))"

text \<open>
  \<open>r\<close> is the result of calling, in the state \<open>s\<close>, the callback of the stored
  function \<open>p\<close> with the error \<open>e\<close>: an application callback is called with it and
  nothing else happens; the function of \<^verbatim>\<open>_reconnect\<close> hands it to the error hook
  first, and leaves the table and the counter alone.
\<close>

definition called_with :: "jserror \<Rightarrow> pending \<Rightarrow> client \<Rightarrow> result \<Rightarrow> bool" where
  "called_with e p s r =
     (case callback_of p of
        AppCb c \<Rightarrow> r = (None, s\<lparr>trace := trace s @ [AppCallback c [AErr e]]\<rparr>)
      | ReconnectCb \<Rightarrow>
          requests (snd r) = requests s \<and> ids (snd r) = ids s \<and>
          take (Suc (length (trace s))) (trace (snd r)) = trace s @ [OnError (AErr e)])"

text \<open>
  Values that are not objects, and a policy that holds such values only: their
  conversions to a primitive do not throw.
\<close>

fun prim :: "jsval \<Rightarrow> bool" where
  "prim (Arr vs) = False"
| "prim (Obj kvs) = False"
| "prim v = True"

definition plain_policy :: "client \<Rightarrow> bool" where
  "plain_policy s =
     (case reconnection s of
        None \<Rightarrow> True
      | Some r \<Rightarrow> prim (wait r) \<and> prim (delay r) \<and> prim (maxDelay r))"

fun is_number :: "jsval \<Rightarrow> bool" where
  "is_number (Num i) = True"
| "is_number NaN = True"
| "is_number PosInf = True"
| "is_number NegInf = True"
| "is_number v = False"

text \<open>
  The timeouts \<open>ts\<close> grow by \<open>d\<close> up to the cap \<open>m\<close>: the \<open>k\<close>-th is
  \<open>min (k * d) m\<close>, as long as \<open>k * d\<close> is an integer that doubles add exactly.
\<close>

definition linear_capped :: "int \<Rightarrow> int \<Rightarrow> jsval list \<Rightarrow> bool" where
  "linear_capped d m ts =
     (\<forall>k < length ts. exact (int (Suc k) * d) \<longrightarrow> ts ! k = Num (min (int (Suc k) * d) m))"

text \<open>
  The backoff invariant for a policy with increment \<open>d\<close> and cap \<open>m\<close>, over the
  timeouts \<open>base\<close> scheduled before it was installed: the timeouts scheduled since
  are linear and capped, and the policy, while it is active, holds a number as its wait,
  which after \<open>n\<close> cycles is \<open>n * d\<close> as long as that is exact.
\<close>

definition backoff_inv :: "int \<Rightarrow> int \<Rightarrow> jsval list \<Rightarrow> client \<Rightarrow> bool" where
  "backoff_inv d m base s =
     (let ts = scheduled (trace s); n = length ts - length base
      in take (length base) ts = base \<and>
         linear_capped d m (drop (length base) ts) \<and>
         (case reconnection s of
            None \<Rightarrow> True
          | Some r \<Rightarrow>
              delay r = Num d \<and> maxDelay r = Num m \<and> is_number (wait r) \<and>
              (exact (int n * d) \<longrightarrow> wait r = Num (int n * d))))"

section \<open>A concrete environment\<close>

text \<open>Two responses, to the requests 1 and 2.\<close>

definition reply1 :: jsval where
  "reply1 = Obj [(''nes'', Str ''response''), (''id'', Num 1), (''statusCode'', Num 200),
                 (''payload'', Str ''one'')]"

definition reply2 :: jsval where
  "reply2 = Obj [(''nes'', Str ''response''), (''id'', Num 2), (''statusCode'', Num 404),
                 (''payload'', Obj [(''message'', Str ''not found'')]),
                 (''headers'', Obj [])]"

text \<open>
  The arithmetic of doubles on integers. \<open>bits a\<close> is the number of binary digits of
  a positive integer. \<open>round_double x\<close> is the double nearest to the integer \<open>x\<close>:
  beyond \<open>2^53\<close> the 53 leading binary digits are kept and the rest is rounded to the
  nearest, a tie going to the even neighbour; from \<open>2^1024\<close> on the result is an
  infinity.
\<close>

function bits :: "int \<Rightarrow> nat" where
  "bits a = (if a \<le> 0 then 0 else Suc (bits (a div 2)))"
  by pat_completeness auto
termination
  by (relation "measure nat") auto

declare bits.simps [simp del]

definition round_double :: "int \<Rightarrow> number" where
  "round_double x =
     (let a = \<bar>x\<bar>
      in if a \<le> limit then Whole x
         else
           let shift = bits a - 53;
               q = a div 2 ^ shift;
               r = a mod 2 ^ shift;
               half = 2 ^ (shift - 1);
               q' = (if half < r \<or> (r = half \<and> odd q) then q + 1 else q);
               v = q' * 2 ^ shift
           in if 2 ^ 1024 \<le> v then (if x < 0 then Minus_inf else Plus_inf)
              else Whole (if x < 0 then - v else v))"

text \<open>
  The text of a positive integer \<open>a\<close> that is a double, as \<^verbatim>\<open>ToString\<close> prints
  it: the fewest digits \<open>s\<close>, say \<open>k\<close> of them, such that \<open>s\<close> followed by zeros is
  a number that rounds to \<open>a\<close> (the nearest to \<open>a\<close> among those, the even one of two
  at the same distance), written out in full up to 21 digits and with an exponent from
  there on. \<open>shortest a n ks\<close> looks for \<open>s\<close> among the numbers of \<open>n\<close> digits,
  trying the lengths \<open>ks\<close> in turn.
\<close>

definition fits :: "int \<Rightarrow> int \<Rightarrow> nat \<Rightarrow> int \<Rightarrow> bool" where
  "fits a p k s = (10 ^ (k - 1) \<le> s \<and> s < 10 ^ k \<and> round_double (s * p) = Whole a)"

fun shortest :: "int \<Rightarrow> nat \<Rightarrow> nat list \<Rightarrow> int \<times> nat" where
  "shortest a n [] = (a, n)"
| "shortest a n (k # ks) =
     (let p = 10 ^ (n - k); lo = a div p
      in if fits a p k lo \<and> fits a p k (lo + 1) then
           (if a - lo * p < (lo + 1) * p - a then (lo, k)
            else if (lo + 1) * p - a < a - lo * p then (lo + 1, k)
            else if even lo then (lo, k) else (lo + 1, k))
         else if fits a p k lo then (lo, k)
         else if fits a p k (lo + 1) then (lo + 1, k)
         else shortest a n ks)"

definition double_text :: "int \<Rightarrow> string" where
  "double_text a =
     (let n = length (numeral_of a);
          (s, k, pos) = (if round_double (10 ^ n) = Whole a then (1, 1, Suc n)
                         else case shortest a n [1..<Suc n] of (s, k) \<Rightarrow> (s, k, n));
          ds = numeral_of s
      in if pos \<le> 21 then ds @ replicate (pos - k) CHR ''0''
         else hd ds # (if 1 < k then CHR ''.'' # tl ds else []) @ ''e+'' @ dec (pos - 1))"

text \<open>
  The number that a decimal numeral, with or without a minus sign, converts to; the
  empty string converts to zero, and the names of the infinities to the infinities.
\<close>

fun digits_value :: "string \<Rightarrow> int \<Rightarrow> int option" where
  "digits_value [] acc = Some acc"
| "digits_value (c # cs) acc =
     (case map_of (zip ''0123456789'' [0, 1, 2, 3, 4, 5, 6, 7, 8, 9]) c of
        None \<Rightarrow> None
      | Some d \<Rightarrow> digits_value cs (acc * 10 + d))"

definition numeral_value :: "string \<Rightarrow> number" where
  "numeral_value t =
     (if t = [] then Whole 0
      else if t = ''Infinity'' then Plus_inf
      else if t = ''-Infinity'' then Minus_inf
      else if hd t = CHR ''-'' \<and> tl t \<noteq> [] then
        (case digits_value (tl t) 0 of None \<Rightarrow> NotNumber | Some v \<Rightarrow> round_double (- v))
      else (case digits_value t 0 of None \<Rightarrow> NotNumber | Some v \<Rightarrow> round_double v))"

text \<open>
  A small codec and transport for the examples: a message is serialised to its kind and
  id, except that a request whose path is the number \<open>0\<close> cannot be serialised; the
  transport refuses the text \<open>auth:1\<close>; the inbound texts are the ones listed. The
  sum of doubles is the rounded sum, integers print as above, and the strings that
  convert to a number are the decimal numerals and the names of the infinities (the
  examples convert no other string).
\<close>

definition sample_parse :: "string \<Rightarrow> jserror + jsval" where
  "sample_parse t =
     (if t = ''r1'' then Inr reply1
      else if t = ''r2'' then Inr reply2
      else if t = ''r2null'' then
        Inr (Obj [(''nes'', Str ''response''), (''id'', Num 2), (''statusCode'', Num 404),
                  (''payload'', Null), (''headers'', Obj [])])
      else if t = ''a1'' then Inr (Obj [(''nes'', Str ''auth''), (''id'', Num 1)])
      else if t = ''x1'' then
        Inr (Obj [(''nes'', Obj [(''toString'', Num 1)]), (''id'', Num 1)])
      else if t = ''b'' then Inr (Obj [(''nes'', Str ''broadcast''), (''message'', Str ''hello'')])
      else Inl (External ''SyntaxError''))"

definition sample_stringify :: "outmsg \<Rightarrow> jserror + string" where
  "sample_stringify m =
     (case m of
        RequestMsg i method path headers payload \<Rightarrow>
          if path = Num 0 then Inl (External ''cyclic'') else Inr (''request:'' @ dec i)
      | AuthMsg i token \<Rightarrow> Inr (''auth:'' @ dec i))"

definition sample_env :: env where
  "sample_env =
     \<lparr>json_stringify = sample_stringify,
      json_parse = sample_parse,
      ws_send = (\<lambda>h t. if t = ''auth:1'' then Some (External ''send failed'') else None),
      str_to_num = numeral_value,
      number_text = (\<lambda>i. if i < 0 then CHR ''-'' # double_text (- i) else double_text i),
      double_add = (\<lambda>a b. round_double (a + b)),
      proto_call = (\<lambda>k. if k = ''constructor'' then Some None else None)\<rparr>"

text \<open>A client that has connected and whose transport is open.\<close>

definition connected :: client where
  "connected =
     run sample_env (Client ''ws://localhost'' Undefined)
       [Connect (OnlyCallback (AppCb 0)), Opened 0]"

text \<open>Options that ask for a zero delay and give the empty string for the cap.\<close>

definition zero_delay_options :: options where
  "zero_delay_options =
     \<lparr>opt_reconnect = Undefined, opt_delay = Num 0, opt_maxDelay = Str [],
      opt_auth = Undefined\<rparr>"

text \<open>The connected client with two requests in flight, ids 1 and 2.\<close>

definition two_pending :: client where
  "two_pending =
     run sample_env connected [Request (Str ''/a'') (AppCb 1), Request (Str ''/b'') (AppCb 2)]"

text \<open>The connected client with a request (id 1) and an authentication (id 2) in flight.\<close>

definition auth_pending :: client where
  "auth_pending =
     run sample_env connected [Request (Str ''/a'') (AppCb 1), Authenticate (Str ''secret'') (AppCb 3)]"

text \<open>
  Increment 1000 and cap 5000, and a run in which the transport closes and six
  reconnection attempts fail one after the other.
\<close>

definition backoff_options :: options where
  "backoff_options =
     \<lparr>opt_reconnect = Bool True, opt_delay = Num 1000, opt_maxDelay = Num 5000,
      opt_auth = Undefined\<rparr>"

definition failing_reconnects :: "event list" where
  "failing_reconnects =
     [Opened 0, Closed 0,
      Timer 0, Failed 1 (External ''refused''), Timer 0, Failed 2 (External ''refused''),
      Timer 0, Failed 3 (External ''refused''), Timer 0, Failed 4 (External ''refused''),
      Timer 0, Failed 5 (External ''refused''), Timer 0, Failed 6 (External ''refused'')]"




text \<open>
  A client whose transport closed, so that a backoff timer is pending, and on which
  \<^verbatim>\<open>disconnect\<close> was then called.
\<close>

definition disconnected_while_waiting :: client where
  "disconnected_while_waiting =
     run sample_env (Client ''ws://localhost'' Undefined)
       [Connect (OnlyCallback (AppCb 0)), Opened 0, Closed 0, Disconnect]"




section \<open>Basic facts\<close>

subsection \<open>Frames\<close>

text \<open>
  The helpers write the trace and the policy only; the table, the counter and the
  transports are left alone.
\<close>

lemma msg_id_set_id [simp]: "msg_id (set_id i m) = i"
  by (cases m) simp_all

lemma emit_fields [simp]:
  "requests (emit e s) = requests s" "ids (emit e s) = ids s" "ws (emit e s) = ws s"
  "sockets (emit e s) = sockets s" "reconnection (emit e s) = reconnection s"
  "timers (emit e s) = timers s" "trace (emit e s) = trace s @ [e]"
  by (simp_all add: emit_def)

lemma reconnect_fields [simp]:
  "requests (snd (reconnect E s)) = requests s" "ids (snd (reconnect E s)) = ids s"
  "ws (snd (reconnect E s)) = ws s" "sockets (snd (reconnect E s)) = sockets s"
  by (simp_all add: reconnect_def Let_def split: option.splits sum.splits)

lemma call_cb_fields [simp]:
  "requests (snd (call_cb E c as s)) = requests s" "ids (snd (call_cb E c as s)) = ids s"
  "ws (snd (call_cb E c as s)) = ws s" "sockets (snd (call_cb E c as s)) = sockets s"
  by (induction E c as s rule: call_cb.induct) simp_all

lemma call_pending_error:
  "call_pending E p (Some e) u s = call_cb E (callback_of p) [AErr e] s"
  by (cases p) simp_all

lemma call_pending_fields [simp]:
  "requests (snd (call_pending E p err u s)) = requests s"
  "ids (snd (call_pending E p err u s)) = ids s"
  "ws (snd (call_pending E p err u s)) = ws s"
  "sockets (snd (call_pending E p err u s)) = sockets s"
  by (cases p; cases err; simp split: sum.splits)+

subsection \<open>Decimal keys\<close>

text \<open>
  Different ids have different keys: the decimal numeral determines the number.
\<close>

lemma numeral_of_nonempty: "numeral_of i \<noteq> []"
  by (subst numeral_of.simps) simp

lemma digit_char_inj: "a < 10 \<Longrightarrow> b < 10 \<Longrightarrow> digit_char a = digit_char b \<Longrightarrow> a = b"
  unfolding digit_char_def
  by (simp add: nth_eq_iff_index_eq)

lemma numeral_of_inj:
  "0 \<le> i \<Longrightarrow> 0 \<le> j \<Longrightarrow> numeral_of i = numeral_of j \<Longrightarrow> i = j"
proof (induction i arbitrary: j rule: numeral_of.induct)
  case (1 i)
  show ?case
  proof (cases "i < 10")
    case True
    then have di: "numeral_of i = [digit_char (nat i)]" by (subst numeral_of.simps) simp
    show ?thesis
    proof (cases "j < 10")
      case True
      then have "numeral_of j = [digit_char (nat j)]" by (subst numeral_of.simps) simp
      with di "1.prems" have "digit_char (nat i) = digit_char (nat j)" by simp
      moreover have "nat i < 10" "nat j < 10" using \<open>i < 10\<close> True by simp_all
      ultimately have "nat i = nat j" by (rule digit_char_inj[rotated 2])
      with "1.prems" show ?thesis by simp
    next
      case False
      then have "numeral_of j = numeral_of (j div 10) @ [digit_char (nat (j mod 10))]"
        by (subst numeral_of.simps) simp
      with di "1.prems" have "numeral_of (j div 10) = []" by simp
      then show ?thesis by (simp add: numeral_of_nonempty)
    qed
  next
    case False
    then have di: "numeral_of i = numeral_of (i div 10) @ [digit_char (nat (i mod 10))]"
      by (subst numeral_of.simps) simp
    show ?thesis
    proof (cases "j < 10")
      case True
      then have "numeral_of j = [digit_char (nat j)]" by (subst numeral_of.simps) simp
      with di "1.prems" have "numeral_of (i div 10) = []" by simp
      then show ?thesis by (simp add: numeral_of_nonempty)
    next
      case nf: False
      then have dj: "numeral_of j = numeral_of (j div 10) @ [digit_char (nat (j mod 10))]"
        by (subst numeral_of.simps) simp
      from di dj "1.prems" have a: "numeral_of (i div 10) = numeral_of (j div 10)"
        and b: "digit_char (nat (i mod 10)) = digit_char (nat (j mod 10))"
        by simp_all
      have "0 \<le> i div 10" "0 \<le> j div 10" using "1.prems" by simp_all
      from "1.IH"[OF False this a] have c: "i div 10 = j div 10" .
      have "nat (i mod 10) < 10" "nat (j mod 10) < 10" by simp_all
      with b have "nat (i mod 10) = nat (j mod 10)" by (intro digit_char_inj) simp_all
      then have d: "i mod 10 = j mod 10" by simp
      from c d show ?thesis by (metis div_mult_mod_eq)
    qed
  qed
qed

lemma dec_inj: "dec m = dec n \<Longrightarrow> m = n"
  using numeral_of_inj[of "int m" "int n"] by (simp add: dec_def)

text \<open>The key of an id that the counter can reach is its decimal numeral.\<close>

lemma key_exact: "int i \<le> limit \<Longrightarrow> key E i = dec i"
  by (simp add: key_def num_text_def exact_def dec_def)

lemma next_id_bound: "int n \<le> limit \<Longrightarrow> int (next_id n) \<le> limit"
  by (simp add: next_id_def)

lemma next_id_Suc: "int n < limit \<Longrightarrow> next_id n = Suc n"
  by (simp add: next_id_def)

lemma next_id_ge: "n \<le> next_id n"
  by (simp add: next_id_def)

lemma next_id_pos: "0 < next_id n"
  by (simp add: next_id_def limit_def)

subsection \<open>Association lists\<close>

lemma update_fresh: "k \<notin> fst ` set al \<Longrightarrow> AList.update k v al = al @ [(k, v)]"
  by (induction al) auto

lemma delete_snoc_fresh: "k \<notin> fst ` set al \<Longrightarrow> AList.delete k (al @ [(k, v)]) = al"
  by (induction al) auto

subsection \<open>The table invariant\<close>

text \<open>
  The evaluable form of the invariant says what it should: the keys are the numerals of
  a strictly increasing list of ids between 1 and the counter.
\<close>

lemma dec_eq [simp]: "dec a = dec b \<longleftrightarrow> a = b"
  by (auto dest: dec_inj)

lemma keys_ok_iff:
  "keys_ok ks n \<longleftrightarrow> (\<exists>js. ks = map dec js \<and> sorted_wrt (<) js \<and> set js \<subseteq> {1..n})"
proof
  let ?f = "filter (\<lambda>i. dec i \<in> set ks) [1..<Suc n]"
  assume "keys_ok ks n"
  then have a: "ks = map dec ?f" unfolding keys_ok_def .
  have b: "sorted_wrt (<) ?f" by (simp add: sorted_wrt_filter del: upt_Suc)
  have c: "set ?f \<subseteq> {1..n}" by (auto simp del: upt_Suc)
  from a b c show "\<exists>js. ks = map dec js \<and> sorted_wrt (<) js \<and> set js \<subseteq> {1..n}" by blast
next
  let ?f = "filter (\<lambda>i. dec i \<in> set ks) [1..<Suc n]"
  assume "\<exists>js. ks = map dec js \<and> sorted_wrt (<) js \<and> set js \<subseteq> {1..n}"
  then obtain js where js: "ks = map dec js" "sorted_wrt (<) js" "set js \<subseteq> {1..n}"
    by blast
  have "set ?f = set js"
  proof
    show "set ?f \<subseteq> set js" using js(1) by (auto simp del: upt_Suc)
    show "set js \<subseteq> set ?f" using js(1,3) by (auto simp del: upt_Suc)
  qed
  moreover have "sorted_wrt (<) ?f" by (simp add: sorted_wrt_filter del: upt_Suc)
  ultimately have "?f = js"
    using js(2) by (metis strict_sorted_equal)
  then show "keys_ok ks n" using js(1) unfolding keys_ok_def by simp
qed

lemma keys_ok_distinct: "keys_ok ks n \<Longrightarrow> distinct ks"
  unfolding keys_ok_iff
  by (auto simp: distinct_map inj_on_def strict_sorted_iff)

lemma keys_ok_fresh: "keys_ok ks n \<Longrightarrow> dec (Suc n) \<notin> set ks"
  unfolding keys_ok_iff by fastforce


lemma keys_ok_mono: "keys_ok ks n \<Longrightarrow> n \<le> n' \<Longrightarrow> keys_ok ks n'"
  unfolding keys_ok_iff by fastforce

lemma keys_ok_register:
  assumes "keys_ok ks n" and "n \<le> n'" and "0 < n'"
  shows "keys_ok (if dec n' \<in> set ks then ks else ks @ [dec n']) n'"
proof (cases "dec n' \<in> set ks")
  case True
  then show ?thesis using keys_ok_mono[OF assms(1,2)] by simp
next
  case False
  from assms(1) obtain js where js: "ks = map dec js" "sorted_wrt (<) js" "set js \<subseteq> {1..n}"
    unfolding keys_ok_iff by blast
  from False js(1) have "n' \<notin> set js" by auto
  with js(3) assms(2) have lt: "\<forall>j \<in> set js. j < n'"
    by (metis atLeastAtMost_iff le_neq_implies_less le_trans subsetD)
  have "ks @ [dec n'] = map dec (js @ [n'])" using js(1) by simp
  moreover have "sorted_wrt (<) (js @ [n'])"
    using js(2) lt by (auto simp: sorted_wrt_append)
  moreover have "set (js @ [n']) \<subseteq> {1..n'}" using js(3) assms(2,3) by auto
  ultimately have "keys_ok (ks @ [dec n']) n'" unfolding keys_ok_iff by blast
  with False show ?thesis by simp
qed

lemma keys_ok_removeAll: "keys_ok ks n \<Longrightarrow> keys_ok (removeAll k ks) n"
proof -
  assume "keys_ok ks n"
  then obtain js where js: "ks = map dec js" "sorted_wrt (<) js" "set js \<subseteq> {1..n}"
    unfolding keys_ok_iff by blast
  have "removeAll k ks = map dec (filter (\<lambda>j. dec j \<noteq> k) js)"
    unfolding js(1) by (induction js) auto
  moreover have "sorted_wrt (<) (filter (\<lambda>j. dec j \<noteq> k) js)"
    using js(2) by (simp add: sorted_wrt_filter)
  moreover have "set (filter (\<lambda>j. dec j \<noteq> k) js) \<subseteq> {1..n}" using js(3) by auto
  ultimately show ?thesis unfolding keys_ok_iff by blast
qed

lemma table_ok_distinct: "table_ok s \<Longrightarrow> distinct (map fst (requests s))"
  by (auto simp: table_ok_def dest: keys_ok_distinct)

lemma fresh_key: "table_ok s \<Longrightarrow> dec (Suc (ids s)) \<notin> fst ` set (requests s)"
  using keys_ok_fresh[of "map fst (requests s)" "ids s"] by (simp add: table_ok_def)

lemma table_ok_delete:
  "table_ok s \<Longrightarrow> table_ok (s\<lparr>requests := AList.delete k (requests s)\<rparr>)"
  by (simp add: table_ok_def AList.delete_keys keys_ok_removeAll)

lemma table_ok_update [simp]:
  "table_ok (s\<lparr>ws := w\<rparr>) = table_ok s"
  "table_ok (s\<lparr>sockets := ss\<rparr>) = table_ok s"
  "table_ok (s\<lparr>timers := ts\<rparr>) = table_ok s"
  "table_ok (s\<lparr>reconnection := r\<rparr>) = table_ok s"
  "table_ok (s\<lparr>trace := tr\<rparr>) = table_ok s"
  "table_ok (emit e s) = table_ok s"
  "table_ok (snd (reconnect E s)) = table_ok s"
  "table_ok (snd (call_cb E c as s)) = table_ok s"
  "table_ok (snd (call_pending E p err u s)) = table_ok s"
  "table_ok (set_ready h st s) = table_ok s"
  "table_ok (set_sentCallback h s) = table_ok s"
  by (simp_all add: table_ok_def set_ready_def set_sentCallback_def)

lemma table_ok_next_id: "table_ok s \<Longrightarrow> table_ok (s\<lparr>ids := next_id (ids s)\<rparr>)"
  using keys_ok_mono[of "map fst (requests s)" "ids s" "next_id (ids s)"]
  by (simp add: table_ok_def next_id_ge next_id_bound)

lemma table_ok_register:
  assumes "table_ok s"
  shows "table_ok (s\<lparr>ids := next_id (ids s),
                      requests := AList.update (key E (next_id (ids s))) p (requests s)\<rparr>)"
proof -
  from assms have b: "int (next_id (ids s)) \<le> limit"
    by (simp add: table_ok_def next_id_bound)
  from assms have "keys_ok (map fst (requests s)) (ids s)" by (simp add: table_ok_def)
  from keys_ok_register[OF this next_id_ge next_id_pos]
  show ?thesis using b by (simp add: table_ok_def key_exact AList.update_keys)
qed

lemma table_ok_send: "table_ok s \<Longrightarrow> table_ok (snd (send E m p s))"
  by (auto simp: send_def stringify_def Let_def table_ok_next_id table_ok_register
        AList.delete_update_same table_ok_delete[OF table_ok_next_id, simplified]
        split: option.splits sum.splits)

subsection \<open>Projections of the trace\<close>

lemma deliveries_append [simp]: "deliveries (xs @ ys) = deliveries xs @ deliveries ys"
  by (induction xs rule: deliveries.induct) simp_all

lemma scheduled_append [simp]: "scheduled (xs @ ys) = scheduled xs @ scheduled ys"
  by (induction xs rule: scheduled.induct) simp_all

lemma app_calls_append [simp]: "app_calls (xs @ ys) = app_calls xs @ app_calls ys"
  by (induction xs rule: app_calls.induct) simp_all

lemma opened_append [simp]: "opened (xs @ ys) = opened xs @ opened ys"
  by (induction xs rule: opened.induct) simp_all

lemma deliveries_reconnect [simp]:
  "deliveries (trace (snd (reconnect E s))) = deliveries (trace s)"
  by (simp add: reconnect_def Let_def split: option.splits sum.splits)

lemma app_calls_reconnect [simp]:
  "app_calls (trace (snd (reconnect E s))) = app_calls (trace s)"
  by (simp add: reconnect_def Let_def split: option.splits sum.splits)

lemma reconnect_trace_prefix:
  "take (length (trace s)) (trace (snd (reconnect E s))) = trace s"
  by (simp add: reconnect_def Let_def split: option.splits sum.splits)

lemma deliveries_call_cb [simp]:
  "deliveries (trace (snd (call_cb E c as s))) = deliveries (trace s)"
  by (induction E c as s rule: call_cb.induct) simp_all

lemma deliveries_call_pending [simp]:
  "deliveries (trace (snd (call_pending E p err u s))) = deliveries (trace s)"
  by (cases p; cases err; simp split: sum.splits)


subsection \<open>Policies of primitive values\<close>


lemma prim_of_number [simp]: "prim (of_number x)"
  by (cases x) simp_all





lemma plain_policy_update [simp]:
  "plain_policy (s\<lparr>requests := rq\<rparr>) = plain_policy s"
  "plain_policy (s\<lparr>ws := w\<rparr>) = plain_policy s"
  "plain_policy (emit e s) = plain_policy s"
  by (simp_all add: plain_policy_def emit_def)


subsection \<open>Flushing the table\<close>


lemma result_case_snd:
  "snd (case r of (None, s2) \<Rightarrow> f s2 | (Some e, s2) \<Rightarrow> (Some e, s2)) =
     (if fst r = None then snd (f (snd r)) else snd r)"
  by (cases r; cases "fst r") auto

lemma flush_Cons:
  "map_of (requests s) k = Some p \<Longrightarrow>
   flush E e (k # ks) s =
     (case call_cb E (callback_of p) [AErr e]
             (emit (Deliver k p (Some e) Undefined) (s\<lparr>requests := AList.delete k (requests s)\<rparr>)) of
        (None, s2) \<Rightarrow> flush E e ks s2
      | (Some e', s2) \<Rightarrow> (Some e', s2))"
  by (simp add: Let_def call_pending_error)


subsection \<open>The backoff invariant\<close>

text \<open>
  It is kept by every operation of the client except \<^verbatim>\<open>connect\<close>, hence by every
  event that is not a \<^verbatim>\<open>connect\<close> call.
\<close>

lemma backoff_inv_iff:
  "backoff_inv d m base s \<longleftrightarrow>
     (\<exists>us. scheduled (trace s) = base @ us \<and> linear_capped d m us \<and>
           (\<forall>r. reconnection s = Some r \<longrightarrow>
                  delay r = Num d \<and> maxDelay r = Num m \<and> is_number (wait r) \<and>
                  (exact (int (length us) * d) \<longrightarrow> wait r = Num (int (length us) * d))))"
  (is "?l \<longleftrightarrow> (\<exists>us. ?P us)")
proof
  let ?ts = "scheduled (trace s)"
  assume l: ?l
  then have t: "take (length base) ?ts = base"
    by (simp add: backoff_inv_def Let_def)
  have "?ts = take (length base) ?ts @ drop (length base) ?ts" by simp
  with t have a: "?ts = base @ drop (length base) ?ts" by simp
  have "?P (drop (length base) ?ts)"
    using l a by (auto simp: backoff_inv_def Let_def split: option.splits)
  then show "\<exists>us. ?P us" by blast
next
  assume "\<exists>us. ?P us"
  then obtain us where us: "?P us" by blast
  then show ?l
    by (auto simp: backoff_inv_def Let_def split: option.splits)
qed

lemma backoff_inv_cong:
  "trace s' = trace s \<Longrightarrow> reconnection s' = reconnection s \<Longrightarrow>
   backoff_inv d m base s \<Longrightarrow> backoff_inv d m base s'"
  by (simp add: backoff_inv_def)

lemma backoff_inv_emit:
  "scheduled [e] = [] \<Longrightarrow> backoff_inv d m base s \<Longrightarrow> backoff_inv d m base (emit e s)"
  by (simp add: backoff_inv_def)

lemma backoff_inv_off:
  "backoff_inv d m base s \<Longrightarrow> backoff_inv d m base (s\<lparr>reconnection := None\<rparr>)"
  by (simp add: backoff_inv_def Let_def)

lemma exact_less: "exact (int (Suc n) * d) \<Longrightarrow> exact (int n * d)"
proof -
  assume a: "exact (int (Suc n) * d)"
  have "\<bar>int n * d\<bar> = int n * \<bar>d\<bar>" by (simp add: abs_mult)
  also have "\<dots> \<le> int (Suc n) * \<bar>d\<bar>" by (simp add: mult_right_mono)
  also have "\<dots> = \<bar>int (Suc n) * d\<bar>" by (simp add: abs_mult)
  finally show ?thesis using a by (simp add: exact_def)
qed

lemma linear_capped_snoc:
  assumes "linear_capped d m us"
    and "exact (int (Suc (length us)) * d) \<longrightarrow> t = Num (min (int (Suc (length us)) * d) m)"
  shows "linear_capped d m (us @ [t])"
  unfolding linear_capped_def
proof (intro allI impI)
  fix k assume k: "k < length (us @ [t])" and e: "exact (int (Suc k) * d)"
  show "(us @ [t]) ! k = Num (min (int (Suc k) * d) m)"
  proof (cases "k < length us")
    case True
    with assms(1) e show ?thesis by (simp add: linear_capped_def nth_append)
  next
    case False
    with k have "k = length us" by simp
    with assms(2) e show ?thesis by simp
  qed
qed

lemma prim_number_of_number [simp]: "prim_number (of_number x) = x"
  by (cases x) simp_all

lemma is_number_of_number [simp]: "is_number (of_number x)"
  by (cases x) simp_all

lemma is_number_conv: "is_number v \<Longrightarrow> v = of_number (prim_number v)"
  by (cases v) simp_all

lemma to_number_of_number [simp]: "to_number E (of_number x) = Inr x"
  by (cases x) (simp_all add: to_number_def)

lemma js_add_numbers:
  "js_add E (of_number x) (of_number y) = Inr (of_number (add E x y))"
  by (cases x; cases y) (simp_all add: js_add_def)

lemma math_min_numbers:
  "math_min E (of_number x) (of_number y) = Inr (of_number (least x y))"
  by (simp add: math_min_def)

text \<open>One cycle of a policy whose delay and cap are numbers.\<close>

lemma reconnect_numbers:
  assumes "reconnection s = Some r" and "delay r = Num d" and "maxDelay r = Num m"
    and "is_number (wait r)"
  shows "\<exists>w t. reconnect E s =
                 (None, emit (SetTimeout t)
                          (s\<lparr>reconnection := Some (r\<lparr>wait := w\<rparr>), timers := timers s @ [t]\<rparr>))
              \<and> is_number w
              \<and> (\<forall>a. wait r = Num a \<and> exact (a + d) \<longrightarrow>
                       w = Num (a + d) \<and> t = Num (min (a + d) m))"
proof -
  let ?x = "add E (prim_number (wait r)) (Whole d)"
  let ?t = "of_number (least ?x (Whole m))"
  have w: "wait r = of_number (prim_number (wait r))"
    by (rule is_number_conv[OF assms(4)])
  have d: "delay r = of_number (Whole d)" and m: "maxDelay r = of_number (Whole m)"
    using assms(2,3) by simp_all
  have a: "js_add E (wait r) (delay r) = Inr (of_number ?x)"
    by (subst w, subst d) (rule js_add_numbers)
  have b: "math_min E (of_number ?x) (maxDelay r) = Inr ?t"
    by (subst m) (rule math_min_numbers)
  have "reconnect E s =
          (None, emit (SetTimeout ?t)
                   (s\<lparr>reconnection := Some (r\<lparr>wait := of_number ?x\<rparr>), timers := timers s @ [?t]\<rparr>))"
    using assms(1) a b by (simp add: reconnect_def Let_def)
  moreover have "\<forall>a. wait r = Num a \<and> exact (a + d) \<longrightarrow>
                   of_number ?x = Num (a + d) \<and> ?t = Num (min (a + d) m)"
    by auto
  ultimately show ?thesis using is_number_of_number by blast
qed

lemma backoff_inv_reconnect:
  assumes "backoff_inv d m base s" shows "backoff_inv d m base (snd (reconnect E s))"
proof (cases "reconnection s")
  case None
  then show ?thesis using assms by (simp add: reconnect_def)
next
  case (Some r)
  from assms obtain us where eq: "scheduled (trace s) = base @ us"
    and lin: "linear_capped d m us"
    and r: "delay r = Num d" "maxDelay r = Num m" "is_number (wait r)"
      "exact (int (length us) * d) \<longrightarrow> wait r = Num (int (length us) * d)"
    unfolding backoff_inv_iff using Some by blast
  from reconnect_numbers[OF Some r(1,2,3), of E] obtain w t where
    rc: "reconnect E s =
           (None, emit (SetTimeout t)
                    (s\<lparr>reconnection := Some (r\<lparr>wait := w\<rparr>), timers := timers s @ [t]\<rparr>))"
    and nw: "is_number w"
    and ex: "\<forall>a. wait r = Num a \<and> exact (a + d) \<longrightarrow> w = Num (a + d) \<and> t = Num (min (a + d) m)"
    by blast
  have next_exact: "exact (int (Suc (length us)) * d) \<longrightarrow>
                    w = Num (int (Suc (length us)) * d) \<and> t = Num (min (int (Suc (length us)) * d) m)"
  proof
    assume e: "exact (int (Suc (length us)) * d)"
    from exact_less[OF e] r(4) have wr: "wait r = Num (int (length us) * d)" by simp
    have s: "int (length us) * d + d = int (Suc (length us)) * d" by (simp add: algebra_simps)
    from ex wr e s show "w = Num (int (Suc (length us)) * d) \<and> t = Num (min (int (Suc (length us)) * d) m)"
      by (metis)
  qed
  have 1: "scheduled (trace (snd (reconnect E s))) = base @ (us @ [t])"
    using eq by (simp add: rc)
  have 2: "linear_capped d m (us @ [t])"
    using lin next_exact by (intro linear_capped_snoc) simp_all
  have 3: "\<forall>r'. reconnection (snd (reconnect E s)) = Some r' \<longrightarrow>
             delay r' = Num d \<and> maxDelay r' = Num m \<and> is_number (wait r') \<and>
             (exact (int (length (us @ [t])) * d) \<longrightarrow> wait r' = Num (int (length (us @ [t])) * d))"
    using r(1,2) nw next_exact by (simp add: rc)
  from 1 2 3 show ?thesis unfolding backoff_inv_iff by blast
qed

lemma backoff_inv_call_cb:
  "backoff_inv d m base s \<Longrightarrow> backoff_inv d m base (snd (call_cb E c as s))"
  by (induction E c as s rule: call_cb.induct)
     (simp_all add: backoff_inv_emit backoff_inv_reconnect)

lemma backoff_inv_call_pending:
  "backoff_inv d m base s \<Longrightarrow> backoff_inv d m base (snd (call_pending E p err u s))"
  by (cases p; cases err)
     (simp_all add: backoff_inv_emit backoff_inv_call_cb split: sum.splits)

lemma backoff_inv_update [simp]:
  "backoff_inv d m base (s\<lparr>requests := rq\<rparr>) = backoff_inv d m base s"
  "backoff_inv d m base (s\<lparr>ids := i\<rparr>) = backoff_inv d m base s"
  "backoff_inv d m base (s\<lparr>ws := w\<rparr>) = backoff_inv d m base s"
  "backoff_inv d m base (s\<lparr>sockets := ss\<rparr>) = backoff_inv d m base s"
  "backoff_inv d m base (s\<lparr>timers := ts\<rparr>) = backoff_inv d m base s"
  "backoff_inv d m base (set_ready h r s) = backoff_inv d m base s"
  "backoff_inv d m base (set_sentCallback h s) = backoff_inv d m base s"
  by (simp_all add: backoff_inv_def set_ready_def set_sentCallback_def)

lemma backoff_inv_send:
  "backoff_inv d m base s \<Longrightarrow> backoff_inv d m base (snd (send E msg p s))"
  by (simp add: send_def stringify_def Let_def backoff_inv_call_pending backoff_inv_emit
           split: option.splits sum.splits)

lemma backoff_inv_request:
  "backoff_inv d m base s \<Longrightarrow> backoff_inv d m base (snd (request E opts c s))"
  by (simp add: request_def Let_def backoff_inv_send)

lemma backoff_inv_authenticate:
  "backoff_inv d m base s \<Longrightarrow> backoff_inv d m base (snd (authenticate E t c s))"
  by (simp add: authenticate_def backoff_inv_send)

lemma backoff_inv_connect':
  "backoff_inv d m base s \<Longrightarrow> backoff_inv d m base (connect' a c s)"
  by (simp add: connect'_def Let_def backoff_inv_emit)

lemma backoff_inv_ws_onopen:
  "backoff_inv d m base s \<Longrightarrow> backoff_inv d m base (snd (ws_onopen E h s))"
  by (simp add: ws_onopen_def Let_def backoff_inv_emit backoff_inv_call_cb
        backoff_inv_authenticate)

lemma backoff_inv_ws_onerror:
  "backoff_inv d m base s \<Longrightarrow> backoff_inv d m base (snd (ws_onerror E h e s))"
  by (simp add: ws_onerror_def Let_def backoff_inv_emit backoff_inv_call_cb)

lemma backoff_inv_disconnect:
  "backoff_inv d m base s \<Longrightarrow> backoff_inv d m base (disconnect s)"
  by (simp add: disconnect_def Let_def ws_close_def backoff_inv_emit backoff_inv_off
           split: option.splits)

lemma backoff_inv_flush:
  "backoff_inv d m base s \<Longrightarrow> backoff_inv d m base (snd (flush E e ks s))"
proof (induction ks arbitrary: s)
  case Nil
  then show ?case by simp
next
  case (Cons k ks)
  show ?case
  proof (cases "map_of (requests s) k")
    case None
    then show ?thesis using Cons.prems by (simp add: Let_def)
  next
    case (Some p)
    let ?r = "call_cb E (callback_of p) [AErr e]
                 (emit (Deliver k p (Some e) Undefined) (s\<lparr>requests := AList.delete k (requests s)\<rparr>))"
    have inv: "backoff_inv d m base (snd ?r)"
      using Cons.prems by (simp add: backoff_inv_call_cb backoff_inv_emit)
    show ?thesis
      unfolding flush_Cons[OF Some] result_case_snd
      using inv Cons.IH[OF inv] by simp
  qed
qed

lemma backoff_inv_onClose:
  "backoff_inv d m base s \<Longrightarrow> backoff_inv d m base (snd (onClose E s))"
proof -
  assume a: "backoff_inv d m base s"
  let ?r = "flush E (Error ''Disconnected'') (map fst (requests s)) (s\<lparr>ws := None\<rparr>)"
  have "backoff_inv d m base (snd ?r)" using a by (simp add: backoff_inv_flush)
  then show ?thesis
    by (cases ?r; cases "fst ?r") (auto simp: onClose_def Let_def backoff_inv_reconnect)
qed

lemma backoff_inv_timer_fired:
  "backoff_inv d m base s \<Longrightarrow> backoff_inv d m base (snd (timer_fired s))"
  by (simp add: timer_fired_def backoff_inv_connect' split: option.splits)

lemma backoff_inv_onMessage:
  "backoff_inv d m base s \<Longrightarrow> backoff_inv d m base (snd (onMessage E data s))"
  by (simp add: onMessage_def parse_def Let_def backoff_inv_emit backoff_inv_call_pending
           split: sum.splits option.splits)

lemma backoff_inv_finish:
  "backoff_inv d m base (snd r) \<Longrightarrow> backoff_inv d m base (finish r)"
  by (cases r rule: finish.cases) (simp_all add: backoff_inv_emit)

lemma backoff_inv_step:
  "\<not> is_Connect ev \<Longrightarrow> backoff_inv d m base s \<Longrightarrow> backoff_inv d m base (step E s ev)"
  unfolding step_def
  by (cases ev)
     (simp_all add: backoff_inv_finish backoff_inv_disconnect backoff_inv_request
        backoff_inv_authenticate backoff_inv_ws_onopen backoff_inv_ws_onerror
        backoff_inv_onClose backoff_inv_onMessage backoff_inv_timer_fired)

lemma backoff_inv_run:
  "\<forall>ev \<in> set evs. \<not> is_Connect ev \<Longrightarrow> backoff_inv d m base s \<Longrightarrow>
   backoff_inv d m base (run E s evs)"
  unfolding run_def
  by (induction evs arbitrary: s) (simp_all add: backoff_inv_step)

subsection \<open>The table invariant over events\<close>

text \<open>
  Every event keeps the invariant, so it holds in every state a new client can reach.
\<close>

lemma finish_fields [simp]:
  "requests (finish r) = requests (snd r)" "ids (finish r) = ids (snd r)"
  "ws (finish r) = ws (snd r)" "sockets (finish r) = sockets (snd r)"
  "deliveries (trace (finish r)) = deliveries (trace (snd r))"
  by (cases r rule: finish.cases; simp)+

lemma table_ok_finish [simp]: "table_ok (finish r) = table_ok (snd r)"
  by (simp add: table_ok_def)

lemma set_ready_fields [simp]:
  "requests (set_ready h st s) = requests s" "ids (set_ready h st s) = ids s"
  "ws (set_ready h st s) = ws s" "trace (set_ready h st s) = trace s"
  "length (sockets (set_ready h st s)) = length (sockets s)"
  by (simp_all add: set_ready_def)

lemma set_sentCallback_fields [simp]:
  "requests (set_sentCallback h s) = requests s" "ids (set_sentCallback h s) = ids s"
  "ws (set_sentCallback h s) = ws s" "trace (set_sentCallback h s) = trace s"
  "length (sockets (set_sentCallback h s)) = length (sockets s)"
  by (simp_all add: set_sentCallback_def)


lemma send_sockets [simp]:
  "sockets (snd (send E m p s)) = sockets s" "ws (snd (send E m p s)) = ws s"
  by (auto simp: send_def stringify_def Let_def split: option.splits sum.splits)


lemma grows_refl [simp]: "grows s s"
  by (simp add: grows_def)





lemma table_ok_request: "table_ok s \<Longrightarrow> table_ok (snd (request E opts c s))"
  by (simp add: request_def Let_def table_ok_send)

lemma table_ok_authenticate: "table_ok s \<Longrightarrow> table_ok (snd (authenticate E t c s))"
  by (simp add: authenticate_def table_ok_send)

lemma connect'_fields [simp]:
  "requests (connect' a c s) = requests s" "ids (connect' a c s) = ids s"
  by (simp_all add: connect'_def Let_def)

lemma connect_fields [simp]:
  "requests (connect args s) = requests s" "ids (connect args s) = ids s"
  by (simp_all add: connect_def Let_def split: connect_args.splits prod.splits)

lemma disconnect_fields [simp]:
  "requests (disconnect s) = requests s" "ids (disconnect s) = ids s"
  by (simp_all add: disconnect_def Let_def ws_close_def split: option.splits)

lemma timer_fired_fields [simp]:
  "requests (snd (timer_fired s)) = requests s" "ids (snd (timer_fired s)) = ids s"
  by (simp_all add: timer_fired_def split: option.splits)

lemma ws_onerror_fields [simp]:
  "requests (snd (ws_onerror E h e s)) = requests s" "ids (snd (ws_onerror E h e s)) = ids s"
  by (simp_all add: ws_onerror_def Let_def)



lemma table_ok_ws_onopen: "table_ok s \<Longrightarrow> table_ok (snd (ws_onopen E h s))"
  by (simp add: ws_onopen_def Let_def table_ok_authenticate)

lemma table_ok_frame:
  "requests s' = requests s \<Longrightarrow> ids s' = ids s \<Longrightarrow> table_ok s' = table_ok s"
  by (simp add: table_ok_def)

lemma table_ok_flush: "table_ok s \<Longrightarrow> table_ok (snd (flush E e ks s))"
proof (induction ks arbitrary: s)
  case Nil
  then show ?case by simp
next
  case (Cons k ks)
  show ?case
  proof (cases "map_of (requests s) k")
    case None
    then show ?thesis using Cons.prems by (simp add: Let_def table_ok_delete)
  next
    case (Some p)
    let ?r = "call_cb E (callback_of p) [AErr e]
                 (emit (Deliver k p (Some e) Undefined) (s\<lparr>requests := AList.delete k (requests s)\<rparr>))"
    have ok: "table_ok (snd ?r)"
      using Cons.prems by (simp add: table_ok_delete)
    show ?thesis
      unfolding flush_Cons[OF Some] result_case_snd
      using ok Cons.IH[OF ok] by simp
  qed
qed

lemma ids_flush [simp]: "ids (snd (flush E e ks s)) = ids s"
proof (induction ks arbitrary: s)
  case Nil
  then show ?case by simp
next
  case (Cons k ks)
  show ?case
  proof (cases "map_of (requests s) k")
    case None
    then show ?thesis by (simp add: Let_def)
  next
    case (Some p)
    show ?thesis
      unfolding flush_Cons[OF Some] result_case_snd
      using Cons.IH by simp
  qed
qed

lemma onClose_snd:
  "snd (onClose E s) =
     (let r = flush E (Error ''Disconnected'') (map fst (requests s)) (s\<lparr>ws := None\<rparr>)
      in if fst r = None then snd (reconnect E (snd r)) else snd r)"
  by (cases "flush E (Error ''Disconnected'') (map fst (requests s)) (s\<lparr>ws := None\<rparr>)";
      cases "fst (flush E (Error ''Disconnected'') (map fst (requests s)) (s\<lparr>ws := None\<rparr>))")
     (auto simp: onClose_def Let_def)

lemma table_ok_onClose: "table_ok s \<Longrightarrow> table_ok (snd (onClose E s))"
  by (simp add: onClose_snd Let_def table_ok_flush)

lemma ids_onClose [simp]: "ids (snd (onClose E s)) = ids s"
  by (simp add: onClose_snd Let_def)

lemma onMessage_table:
  "requests (snd (onMessage E data s)) =
     (case json_parse E data of
        Inl err \<Rightarrow> requests s
      | Inr update \<Rightarrow>
          if correlated E update then AList.delete (id_key E update) (requests s) else requests s)"
  "ids (snd (onMessage E data s)) = ids s"
  "sockets (snd (onMessage E data s)) = sockets s"
  by (auto simp: onMessage_def parse_def Let_def correlated_def id_key_def keyed_def
        split: sum.splits option.splits)

lemma table_ok_onMessage: "table_ok s \<Longrightarrow> table_ok (snd (onMessage E data s))"
  using table_ok_delete[of s]
  by (auto simp: table_ok_def onMessage_table split: sum.splits)

lemma table_ok_step: "table_ok s \<Longrightarrow> table_ok (step E s ev)"
  unfolding step_def
  by (cases ev)
     (simp_all add: table_ok_request table_ok_authenticate table_ok_ws_onopen
        table_ok_onClose table_ok_onMessage table_ok_frame[of "connect _ _"]
        table_ok_frame[of "disconnect _"] table_ok_frame[of "snd (ws_onerror _ _ _ _)"]
        table_ok_frame[of "snd (timer_fired _)"])

lemma table_ok_run: "table_ok s \<Longrightarrow> table_ok (run E s evs)"
  unfolding run_def by (induction evs arbitrary: s) (simp_all add: table_ok_step)

lemma table_ok_Client: "table_ok (Client u opts)"
  by (simp add: table_ok_def keys_ok_def Client_def limit_def)

lemma reachable_table_ok: "table_ok (run E (Client u opts) evs)"
  by (rule table_ok_run[OF table_ok_Client])

subsection \<open>Entries leave the table only by design\<close>




subsection \<open>Registration and delivery\<close>


lemma send_success:
  assumes "table_ok s" and "int (ids s) < limit" and "open_ws s = Some h"
    and "json_stringify E (set_id (Suc (ids s)) m) = Inr t" and "ws_send E h t = None"
  shows "send E m p s =
           (None, s\<lparr>ids := Suc (ids s), requests := requests s @ [(dec (Suc (ids s)), p)],
                    trace := trace s @ [WsSend h t]\<rparr>)"
proof -
  from assms(2) have n: "next_id (ids s) = Suc (ids s)" by (rule next_id_Suc)
  from assms(2) have k: "key E (Suc (ids s)) = dec (Suc (ids s))"
    by (intro key_exact) simp
  show ?thesis
    using assms(3,4,5) fresh_key[OF assms(1)]
    by (simp add: send_def stringify_def Let_def emit_def update_fresh n k)
qed






lemma status_number:
  "is_error_status E (Num n) = Inr (400 \<le> n \<and> n \<le> 599)"
  by (simp add: is_error_status_def js_ge_def js_le_def to_number_def)






section \<open>Close handling\<close>




section \<open>Backoff\<close>

text \<open>A call \<^verbatim>\<open>connect(callback)\<close> is the call with empty options.\<close>

lemma connect_only_callback:
  "connect (OnlyCallback c) s = connect (WithOptions no_options c) s"
  by (simp add: connect_def)

text \<open>
  Claim C3. A \<^verbatim>\<open>connect\<close> call with reconnection enabled, whose delay increment
  and cap (after defaulting) are the integers \<open>d\<close> and \<open>m\<close>, installs a policy whose
  accumulated wait is zero. From then on, whatever happens short of another
  \<^verbatim>\<open>connect\<close> call (transport events, timers, requests, \<^verbatim>\<open>disconnect\<close>), the
  \<open>k\<close>-th timeout handed to \<^verbatim>\<open>setTimeout\<close> is \<open>min (k * d) m\<close>, and after
  \<open>n\<close> cycles an active policy has accumulated the wait \<open>n * d\<close>: the wait is never
  reset on the way, not even by a reconnection that succeeds. A cycle is a call of
  \<^verbatim>\<open>_reconnect\<close> with an active policy. This is stated for the products \<open>k * d\<close>
  of magnitude at most \<open>2^53\<close>, where the addition of doubles is the addition of
  integers. With \<open>d = 1000\<close> and \<open>m = 5000\<close> the timeouts are 1000, 2000, 3000,
  4000, 5000, 5000, \<dots>
\<close>

theorem backoff_wait_linear_then_capped:
  assumes "opt_reconnect opts \<noteq> Bool False"
    and "or_default (opt_delay opts) 1000 = Num d"
    and "or_default (opt_maxDelay opts) 5000 = Num m"
    and "\<forall>ev \<in> set evs. \<not> is_Connect ev"
  shows "map_option wait (reconnection (connect (WithOptions opts c) s)) = Some (Num 0)
       \<and> (\<exists>us. scheduled (trace (run E (connect (WithOptions opts c) s) evs)) =
                  scheduled (trace s) @ us
               \<and> linear_capped d m us
               \<and> (\<forall>r. reconnection (run E (connect (WithOptions opts c) s) evs) = Some r \<longrightarrow>
                       exact (int (length us) * d) \<longrightarrow> wait r = Num (int (length us) * d)))"
proof -
  let ?s0 = "connect (WithOptions opts c) s"
  have w: "map_option wait (reconnection ?s0) = Some (Num 0)"
    using assms(1) by (simp add: connect_def connect'_def Let_def)
  have "backoff_inv d m (scheduled (trace s)) ?s0"
    using assms(1,2,3)
    by (simp add: backoff_inv_def connect_def connect'_def Let_def linear_capped_def)
  from backoff_inv_run[OF assms(4) this, of E]
  show ?thesis using w unfolding backoff_inv_iff by blast
qed

theorem backoff_wait_linear_then_capped_witness:
  "opt_reconnect backoff_options \<noteq> Bool False
   \<and> or_default (opt_delay backoff_options) 1000 = Num 1000
   \<and> or_default (opt_maxDelay backoff_options) 5000 = Num 5000
   \<and> \<not> list_ex is_Connect failing_reconnects
   \<and> scheduled (trace (run sample_env
          (connect (WithOptions backoff_options (AppCb 0)) (Client ''ws://localhost'' Undefined))
          failing_reconnects)) =
       [Num 1000, Num 2000, Num 3000, Num 4000, Num 5000, Num 5000, Num 5000]
   \<and> linear_capped 1000 5000
       [Num 1000, Num 2000, Num 3000, Num 4000, Num 5000, Num 5000, Num 5000]
   \<and> exact (7 * 1000)"
proof -
  let ?run = "run sample_env
          (connect (WithOptions backoff_options (AppCb 0)) (Client ''ws://localhost'' Undefined))
          failing_reconnects"
  have h1: "opt_reconnect backoff_options \<noteq> Bool False"
    by (simp add: backoff_options_def)
  have h2: "or_default (opt_delay backoff_options) 1000 = Num 1000"
    by (simp add: backoff_options_def or_default_def)
  have h3: "or_default (opt_maxDelay backoff_options) 5000 = Num 5000"
    by (simp add: backoff_options_def or_default_def)
  have h4: "\<forall>ev \<in> set failing_reconnects. \<not> is_Connect ev"
    by (simp add: failing_reconnects_def)
  have v: "scheduled (trace ?run) =
       [Num 1000, Num 2000, Num 3000, Num 4000, Num 5000, Num 5000, Num 5000]"
    by code_simp
  have b: "scheduled (trace (Client ''ws://localhost'' Undefined)) = []"
    by (simp add: Client_def)
  from backoff_wait_linear_then_capped [OF h1 h2 h3 h4, of "AppCb 0" "Client ''ws://localhost'' Undefined" sample_env]
  obtain us where "scheduled (trace ?run) = scheduled (trace (Client ''ws://localhost'' Undefined)) @ us"
    and l: "linear_capped 1000 5000 us"
    by blast
  with v b have "us = [Num 1000, Num 2000, Num 3000, Num 4000, Num 5000, Num 5000, Num 5000]"
    by simp
  with l have "linear_capped 1000 5000
       [Num 1000, Num 2000, Num 3000, Num 4000, Num 5000, Num 5000, Num 5000]" by simp
  moreover have "\<not> list_ex is_Connect failing_reconnects"
    by (simp add: failing_reconnects_def)
  moreover have "exact (7 * 1000)" by (simp add: exact_def limit_def)
  ultimately show ?thesis using h1 h2 h3 v by blast
qed

section \<open>The correlator's send\<close>

lemma called_with_callback:
  "called_with e p s (call_cb E (callback_of p) [AErr e] s)"
proof (cases "callback_of p")
  case (AppCb c)
  then show ?thesis by (simp add: called_with_def emit_def)
next
  case ReconnectCb
  have "take (Suc (length (trace s))) (trace (snd (reconnect E (emit (OnError (AErr e)) s)))) =
          trace s @ [OnError (AErr e)]"
    using reconnect_trace_prefix[of "emit (OnError (AErr e)) s" E] by simp
  with ReconnectCb show ?thesis by (simp add: called_with_def)
qed

text \<open>
  Claim C5. The four outcomes of \<^verbatim>\<open>_send\<close>:
  \<^item> no transport, or a transport that is not open: the callback is called at once with
    the error \<^verbatim>\<open>Disconnected\<close>; no id is taken and the table is unchanged;
  \<^item> serialisation fails: the callback is called with that failure and the table is
    unchanged (the id has been taken);
  \<^item> the transport's \<^verbatim>\<open>send\<close> throws: the callback is called with that failure and
    the table is what it was before the call;
  \<^item> otherwise the callback is stored under the new id, at the end of the table, and the
    text is sent; the callback is not called.

  That the callback is called with the failure \<open>e\<close> is read off the trace: the call of
  an application callback, with the one argument \<open>e\<close>, is the only thing that happens
  (and \<^verbatim>\<open>_send\<close> returns normally); the function of \<^verbatim>\<open>_reconnect\<close> hands
  \<open>e\<close> to the error hook before anything else. The last two outcomes are stated for the
  states that satisfy the table invariant and whose counter is below \<open>2^53\<close>, where
  the new id is fresh.
\<close>

theorem send_outcomes:
  "(open_ws s = None \<longrightarrow>
      called_with (Error ''Disconnected'') p s (send E m p s))
 \<and> (open_ws s = Some h \<and> json_stringify E (set_id (next_id (ids s)) m) = Inl e \<longrightarrow>
      called_with e p (s\<lparr>ids := next_id (ids s)\<rparr>) (send E m p s))
 \<and> (open_ws s = Some h \<and> json_stringify E (set_id (Suc (ids s)) m) = Inr t
        \<and> ws_send E h t = Some e \<and> table_ok s \<and> int (ids s) < limit \<longrightarrow>
      called_with e p (s\<lparr>ids := Suc (ids s)\<rparr>) (send E m p s))
 \<and> (open_ws s = Some h \<and> json_stringify E (set_id (Suc (ids s)) m) = Inr t
        \<and> ws_send E h t = None \<and> table_ok s \<and> int (ids s) < limit \<longrightarrow>
      send E m p s =
        (None, s\<lparr>ids := Suc (ids s), requests := requests s @ [(dec (Suc (ids s)), p)],
                 trace := trace s @ [WsSend h t]\<rparr>))"
proof (intro conjI impI)
  assume "open_ws s = None"
  then have "send E m p s = call_cb E (callback_of p) [AErr (Error ''Disconnected'')] s"
    by (simp add: send_def call_pending_error)
  then show "called_with (Error ''Disconnected'') p s (send E m p s)"
    by (simp add: called_with_callback)
next
  assume "open_ws s = Some h \<and> json_stringify E (set_id (next_id (ids s)) m) = Inl e"
  then have "send E m p s = call_cb E (callback_of p) [AErr e] (s\<lparr>ids := next_id (ids s)\<rparr>)"
    by (simp add: send_def call_pending_error stringify_def Let_def)
  then show "called_with e p (s\<lparr>ids := next_id (ids s)\<rparr>) (send E m p s)"
    by (simp add: called_with_callback)
next
  assume a: "open_ws s = Some h \<and> json_stringify E (set_id (Suc (ids s)) m) = Inr t
        \<and> ws_send E h t = Some e \<and> table_ok s \<and> int (ids s) < limit"
  then have n: "next_id (ids s) = Suc (ids s)" by (simp add: next_id_Suc)
  from a have k: "key E (Suc (ids s)) = dec (Suc (ids s))"
    by (intro key_exact) simp
  from a have f: "dec (Suc (ids s)) \<notin> fst ` set (requests s)" by (simp add: fresh_key)
  have "send E m p s = call_cb E (callback_of p) [AErr e] (s\<lparr>ids := Suc (ids s)\<rparr>)"
    using a f by (simp add: send_def call_pending_error stringify_def Let_def n k
                    update_fresh delete_snoc_fresh)
  then show "called_with e p (s\<lparr>ids := Suc (ids s)\<rparr>) (send E m p s)"
    by (simp add: called_with_callback)
next
  assume a: "open_ws s = Some h \<and> json_stringify E (set_id (Suc (ids s)) m) = Inr t
        \<and> ws_send E h t = None \<and> table_ok s \<and> int (ids s) < limit"
  then show "send E m p s =
        (None, s\<lparr>ids := Suc (ids s), requests := requests s @ [(dec (Suc (ids s)), p)],
                 trace := trace s @ [WsSend h t]\<rparr>)"
    by (intro send_success) simp_all
qed

theorem send_outcomes_witness:
  "send sample_env (AuthMsg 0 Null) (AuthK (AppCb 7)) (Client ''ws://localhost'' Undefined) =
     (None, (Client ''ws://localhost'' Undefined)
              \<lparr>trace := [AppCallback 7 [AErr (Error ''Disconnected'')]]\<rparr>)
   \<and> send sample_env (RequestMsg 0 (Str ''GET'') (Num 0) Undefined Undefined) (RequestK (AppCb 7)) connected =
     (None, connected\<lparr>ids := 1,
              trace := trace connected @ [AppCallback 7 [AErr (External ''cyclic'')]]\<rparr>)
   \<and> send sample_env (AuthMsg 0 Null) (AuthK (AppCb 7)) connected =
     (None, connected\<lparr>ids := 1,
              trace := trace connected @ [AppCallback 7 [AErr (External ''send failed'')]]\<rparr>)
   \<and> send sample_env (RequestMsg 0 (Str ''GET'') (Str ''/'') Undefined Undefined) (RequestK (AppCb 7)) connected =
     (None, connected\<lparr>ids := 1,
              requests := [(''1'', RequestK (AppCb 7))],
              trace := trace connected @ [WsSend 0 ''request:1'']\<rparr>)
   \<and> requests connected = [] \<and> ids connected = 0"
proof -
  have o0: "open_ws (Client ''ws://localhost'' Undefined) = None" by code_simp
  have t0: "trace (Client ''ws://localhost'' Undefined) = []" by code_simp
  have o1: "open_ws connected = Some 0" by code_simp
  have ok: "table_ok connected" by code_simp
  have i: "ids connected = 0" by code_simp
  have r: "requests connected = []" by code_simp
  have b: "int (ids connected) < limit" unfolding i by (simp add: limit_def)
  have n: "next_id (ids connected) = 1" unfolding i by (simp add: next_id_def limit_def)
  have d1: "dec (Suc 0) = ''1''" by code_simp
  have s2: "json_stringify sample_env (set_id (next_id (ids connected)) (RequestMsg 0 (Str ''GET'') (Num 0) Undefined Undefined)) = Inl (External ''cyclic'')"
    unfolding n by code_simp
  have s3: "json_stringify sample_env (set_id (Suc (ids connected)) (AuthMsg 0 Null)) = Inr ''auth:1''"
    unfolding i by code_simp
  have w3: "ws_send sample_env 0 ''auth:1'' = Some (External ''send failed'')" by code_simp
  have s4: "json_stringify sample_env (set_id (Suc (ids connected)) (RequestMsg 0 (Str ''GET'') (Str ''/'') Undefined Undefined)) = Inr ''request:1''"
    unfolding i by code_simp
  have w4: "ws_send sample_env 0 ''request:1'' = None" by code_simp
  have c1: "called_with (Error ''Disconnected'') (AuthK (AppCb 7))
              (Client ''ws://localhost'' Undefined)
              (send sample_env (AuthMsg 0 Null) (AuthK (AppCb 7)) (Client ''ws://localhost'' Undefined))"
    using send_outcomes [where s = "Client ''ws://localhost'' Undefined" and E = sample_env
            and m = "AuthMsg 0 Null" and p = "AuthK (AppCb 7)"] o0
    by blast
  have c2: "called_with (External ''cyclic'') (RequestK (AppCb 7))
              (connected\<lparr>ids := next_id (ids connected)\<rparr>)
              (send sample_env (RequestMsg 0 (Str ''GET'') (Num 0) Undefined Undefined)
                 (RequestK (AppCb 7)) connected)"
    using send_outcomes [where s = connected and h = 0 and E = sample_env
            and m = "RequestMsg 0 (Str ''GET'') (Num 0) Undefined Undefined"
            and e = "External ''cyclic''" and p = "RequestK (AppCb 7)"] o1 s2
    by blast
  have c3: "called_with (External ''send failed'') (AuthK (AppCb 7))
              (connected\<lparr>ids := Suc (ids connected)\<rparr>)
              (send sample_env (AuthMsg 0 Null) (AuthK (AppCb 7)) connected)"
    using send_outcomes [where s = connected and h = 0 and E = sample_env
            and m = "AuthMsg 0 Null" and p = "AuthK (AppCb 7)" and t = "''auth:1''"
            and e = "External ''send failed''"] o1 s3 w3 ok b
    by blast
  have c4: "send sample_env (RequestMsg 0 (Str ''GET'') (Str ''/'') Undefined Undefined)
              (RequestK (AppCb 7)) connected =
            (None, connected\<lparr>ids := Suc (ids connected),
                     requests := requests connected @ [(dec (Suc (ids connected)), RequestK (AppCb 7))],
                     trace := trace connected @ [WsSend 0 ''request:1'']\<rparr>)"
    using send_outcomes [where s = connected and h = 0 and E = sample_env
            and m = "RequestMsg 0 (Str ''GET'') (Str ''/'') Undefined Undefined"
            and p = "RequestK (AppCb 7)" and t = "''request:1''"] o1 s4 w4 ok b
    by blast
  from c1 have "send sample_env (AuthMsg 0 Null) (AuthK (AppCb 7)) (Client ''ws://localhost'' Undefined) =
     (None, (Client ''ws://localhost'' Undefined)
              \<lparr>trace := [AppCallback 7 [AErr (Error ''Disconnected'')]]\<rparr>)"
    by (simp add: called_with_def t0)
  moreover from c2 have "send sample_env (RequestMsg 0 (Str ''GET'') (Num 0) Undefined Undefined) (RequestK (AppCb 7)) connected =
     (None, connected\<lparr>ids := 1,
              trace := trace connected @ [AppCallback 7 [AErr (External ''cyclic'')]]\<rparr>)"
    by (simp add: called_with_def n)
  moreover from c3 have "send sample_env (AuthMsg 0 Null) (AuthK (AppCb 7)) connected =
     (None, connected\<lparr>ids := 1,
              trace := trace connected @ [AppCallback 7 [AErr (External ''send failed'')]]\<rparr>)"
    by (simp add: called_with_def i)
  moreover from c4 have "send sample_env (RequestMsg 0 (Str ''GET'') (Str ''/'') Undefined Undefined) (RequestK (AppCb 7)) connected =
     (None, connected\<lparr>ids := 1,
              requests := [(''1'', RequestK (AppCb 7))],
              trace := trace connected @ [WsSend 0 ''request:1'']\<rparr>)"
    by (simp add: i r d1)
  ultimately show ?thesis using r i by blast
qed

section \<open>Connect options\<close>

text \<open>
  Claim C9. In a \<^verbatim>\<open>connect\<close> call that enables reconnection, a delay that is
  falsy (zero, absent, \<^verbatim>\<open>null\<close>, \<^verbatim>\<open>false\<close>, \<^verbatim>\<open>NaN\<close> or the empty string) is
  replaced by 1000 and a falsy cap by 5000, silently (the call does nothing else than open
  the transport); so the delay and the cap of the policy are always truthy, and a zero
  delay cannot be configured.
\<close>

theorem falsy_delay_uses_default:
  assumes "opt_reconnect opts \<noteq> Bool False"
  shows "(\<not> truthy (opt_delay opts) \<longrightarrow>
            map_option delay (reconnection (connect (WithOptions opts c) s)) = Some (Num 1000))
       \<and> (\<not> truthy (opt_maxDelay opts) \<longrightarrow>
            map_option maxDelay (reconnection (connect (WithOptions opts c) s)) = Some (Num 5000))
       \<and> (\<exists>r. reconnection (connect (WithOptions opts c) s) = Some r
              \<and> truthy (delay r) \<and> truthy (maxDelay r))
       \<and> trace (connect (WithOptions opts c) s) = trace s @ [NewWS (length (sockets s))]"
  using assms
  by (simp add: connect_def connect'_def Let_def or_default_def)

theorem falsy_delay_uses_default_witness:
  "opt_reconnect zero_delay_options \<noteq> Bool False
   \<and> opt_delay zero_delay_options = Num 0
   \<and> opt_maxDelay zero_delay_options = Str []
   \<and> map_option delay (reconnection
         (connect (WithOptions zero_delay_options (AppCb 0)) (Client ''ws://localhost'' Undefined))) = Some (Num 1000)
   \<and> map_option maxDelay (reconnection
         (connect (WithOptions zero_delay_options (AppCb 0)) (Client ''ws://localhost'' Undefined))) = Some (Num 5000)"
proof -
  have h: "opt_reconnect zero_delay_options \<noteq> Bool False"
    and d: "opt_delay zero_delay_options = Num 0"
    and m: "opt_maxDelay zero_delay_options = Str []"
    by (simp_all add: zero_delay_options_def)
  show ?thesis
    using falsy_delay_uses_default [OF h, of "AppCb 0" "Client ''ws://localhost'' Undefined"] h d m
    by simp
qed

section \<open>Requests by path\<close>

text \<open>
  Claim C8. For every path string \<open>p\<close>, \<^verbatim>\<open>request(p, callback)\<close> does exactly
  what \<^verbatim>\<open>request({method: 'GET', path: p}, callback)\<close> does, in every state: both
  hand \<^verbatim>\<open>_send\<close> the same request message (method \<^verbatim>\<open>GET\<close>, path \<open>p\<close>, no
  headers, no payload) with the same callback.
\<close>

theorem bare_path_is_get_request:
  "request E (Str p) callback s =
     request E (Obj [(''method'', Str ''GET''), (''path'', Str p)]) callback s
   \<and> request E (Str p) callback s =
     send E (RequestMsg 0 (Str ''GET'') (Str p) Undefined Undefined) (RequestK callback) s"
  by (simp add: request_def nullish_def)

section \<open>Broadcast\<close>

text \<open>
  Claim C7. An inbound message whose kind is \<^verbatim>\<open>broadcast\<close> goes to the broadcast
  hook with its \<^verbatim>\<open>message\<close> property, and nothing else happens: the handler returns
  normally and the client, its pending table included, is left as it was, whatever the
  table holds (also when it is empty) and whatever id the message carries.
\<close>

theorem broadcast_bypasses_pending_table:
  assumes "json_parse E data = Inr update" and "get_prop update ''nes'' = Str ''broadcast''"
  shows "onMessage E data s = (None, emit (OnBroadcast (get_prop update ''message'')) s)
       \<and> requests (step E s (Message h data)) = requests s
       \<and> (h < length (sockets s) \<longrightarrow>
            trace (step E s (Message h data)) = trace s @ [OnBroadcast (get_prop update ''message'')])"
proof -
  have "\<not> nullish update"
    using assms(2) by (auto simp: nullish_def)
  then have "onMessage E data s = (None, emit (OnBroadcast (get_prop update ''message'')) s)"
    using assms by (simp add: onMessage_def parse_def)
  then show ?thesis
    by (simp add: step_def)
qed

theorem broadcast_bypasses_pending_table_witness:
  "json_parse sample_env ''b'' = Inr (Obj [(''nes'', Str ''broadcast''), (''message'', Str ''hello'')])
   \<and> requests connected = []
   \<and> 0 < length (sockets connected)
   \<and> onMessage sample_env ''b'' connected = (None, emit (OnBroadcast (Str ''hello'')) connected)
   \<and> trace (step sample_env connected (Message 0 ''b'')) = trace connected @ [OnBroadcast (Str ''hello'')]"
proof -
  have p: "json_parse sample_env ''b'' = Inr (Obj [(''nes'', Str ''broadcast''), (''message'', Str ''hello'')])"
    by code_simp
  have k: "get_prop (Obj [(''nes'', Str ''broadcast''), (''message'', Str ''hello'')]) ''nes'' = Str ''broadcast''"
    by simp
  have r: "requests connected = []" by code_simp
  have l: "0 < length (sockets connected)" by code_simp
  show ?thesis
    using broadcast_bypasses_pending_table [OF p k, of connected 0] p r l
    by simp
qed

section \<open>Mismatched kinds\<close>

text \<open>
  Let a message that is looked up in the pending table carry the id of a pending request
  and a kind other than \<^verbatim>\<open>response\<close>, or the id of a pending authentication and a
  kind other than \<^verbatim>\<open>auth\<close>. The entry is taken out of the table in any case. When
  the kind can be converted to a string, the error hook gets the error
  \<^verbatim>\<open>Received unexpected response type: \<close> followed by the kind, the handler returns
  normally, and no application callback is called. When it cannot, the exception of the
  conversion leaves the handler, and neither the error hook nor an application callback
  is called.
\<close>

lemma mismatched_kind_reported:
  assumes "json_parse E data = Inr update" and "correlated E update"
    and "map_of (requests s) (id_key E update) = Some p"
    and "(p = RequestK callback \<and> get_prop update ''nes'' \<noteq> Str ''response'') \<or>
         (p = AuthK callback \<and> get_prop update ''nes'' \<noteq> Str ''auth'')"
    and "unexpected E (get_prop update ''nes'') = Inr err"
  shows "onMessage E data s =
           (None, s\<lparr>requests := AList.delete (id_key E update) (requests s),
                    trace := trace s @ [Deliver (id_key E update) p None update,
                                        OnError (AErr err)]\<rparr>)"
proof -
  from assms(2) obtain k where k: "to_string E (get_prop update ''id'') = Inr k"
    by (auto simp: correlated_def keyed_def split: sum.splits)
  then have ik: "id_key E update = k" by (simp add: id_key_def)
  show ?thesis
    using assms k ik
    by (auto simp: onMessage_def parse_def correlated_def Let_def emit_def)
qed

lemma mismatched_kind_throws:
  assumes "json_parse E data = Inr update" and "correlated E update"
    and "map_of (requests s) (id_key E update) = Some p"
    and "(p = RequestK callback \<and> get_prop update ''nes'' \<noteq> Str ''response'') \<or>
         (p = AuthK callback \<and> get_prop update ''nes'' \<noteq> Str ''auth'')"
    and "unexpected E (get_prop update ''nes'') = Inl e"
  shows "onMessage E data s =
           (Some e, s\<lparr>requests := AList.delete (id_key E update) (requests s),
                      trace := trace s @ [Deliver (id_key E update) p None update]\<rparr>)"
proof -
  from assms(2) obtain k where k: "to_string E (get_prop update ''id'') = Inr k"
    by (auto simp: correlated_def keyed_def split: sum.splits)
  then have ik: "id_key E update = k" by (simp add: id_key_def)
  show ?thesis
    using assms k ik
    by (auto simp: onMessage_def parse_def correlated_def Let_def emit_def)
qed

text \<open>
  Claim C10. For a pending request whose correlated message carries a kind other than
  \<^verbatim>\<open>response\<close>, and for a pending authentication whose correlated message carries
  a kind other than \<^verbatim>\<open>auth\<close>, the entry should be taken out of the table and the
  error hook be given an unexpected-response-type error, while the callback of the
  application is not called. The code makes that error by
  \<^verbatim>\<open>'Received unexpected response type: ' + update.nes\<close>, and the concatenation
  throws when the kind is an object with an own property \<^verbatim>\<open>toString\<close>. Below, the
  message \<^verbatim>\<open>{nes: {toString: 1}, id: 1}\<close> arrives for the pending request 1: the
  entry is taken out, and then a \<^verbatim>\<open>TypeError\<close> leaves the handler of the transport;
  the error hook is not called, and neither is the callback of the application. With the
  kind \<^verbatim>\<open>auth\<close> for the same request, and with the kind \<^verbatim>\<open>response\<close> for a
  pending authentication, the error hook is called as the claim says.
\<close>

theorem unprintable_kind_escapes_error_hook:
  "json_parse sample_env ''x1'' =
     Inr (Obj [(''nes'', Obj [(''toString'', Num 1)]), (''id'', Num 1)])
   \<and> map_of (requests two_pending) ''1'' = Some (RequestK (AppCb 1))
   \<and> fst (onMessage sample_env ''x1'' two_pending) =
       Some (TypeError ''Cannot convert object to primitive value'')
   \<and> trace (step sample_env two_pending (Message 0 ''x1'')) =
       trace two_pending @
       [Deliver ''1'' (RequestK (AppCb 1)) None
          (Obj [(''nes'', Obj [(''toString'', Num 1)]), (''id'', Num 1)]),
        Uncaught (TypeError ''Cannot convert object to primitive value'')]
   \<and> map_of (requests (step sample_env two_pending (Message 0 ''x1''))) ''1'' = None
   \<and> trace (step sample_env two_pending (Message 0 ''a1'')) =
       trace two_pending @
       [Deliver ''1'' (RequestK (AppCb 1)) None (Obj [(''nes'', Str ''auth''), (''id'', Num 1)]),
        OnError (AErr (Error ''Received unexpected response type: auth''))]
   \<and> map_of (requests auth_pending) ''2'' = Some (AuthK (AppCb 3))
   \<and> trace (step sample_env auth_pending (Message 0 ''r2'')) =
       trace auth_pending @
       [Deliver ''2'' (AuthK (AppCb 3)) None reply2,
        OnError (AErr (Error ''Received unexpected response type: response''))]"
  by code_simp

section \<open>Correlation\<close>



section \<open>Timer after disconnect\<close>

lemma timer_fired_inactive:
  "reconnection s = None \<Longrightarrow> timer_fired s = (Some (null_read ''auth''), s)"
  by (simp add: timer_fired_def)

lemma timer_fired_active:
  "reconnection s = Some r \<Longrightarrow> timer_fired s = (None, connect' (auth r) ReconnectCb s)"
  by (simp add: timer_fired_def)

text \<open>
  Claim C4. The function that \<^verbatim>\<open>_reconnect\<close> hands to \<^verbatim>\<open>setTimeout\<close> does not
  test the policy: it reads \<^verbatim>\<open>self._reconnection.auth\<close>. When \<^verbatim>\<open>disconnect\<close> has
  set the policy to \<^verbatim>\<open>null\<close> while the timer was pending, that read throws a
  \<^verbatim>\<open>TypeError\<close>, which leaves the timer's handler; no transport is opened, but only
  because the exception comes first. The run below connects, lets the transport open and
  close (which schedules the timer), disconnects, and fires the timer.
\<close>

theorem timer_after_disconnect_throws:
  "timers disconnected_while_waiting = [Num 1000]
   \<and> reconnection disconnected_while_waiting = None
   \<and> fst (handle sample_env (Timer 0) disconnected_while_waiting) =
       Some (TypeError ''Cannot read property auth of null or undefined'')
   \<and> trace (step sample_env disconnected_while_waiting (Timer 0)) =
       trace disconnected_while_waiting @
       [Uncaught (TypeError ''Cannot read property auth of null or undefined'')]
   \<and> opened (trace (step sample_env disconnected_while_waiting (Timer 0))) = [0]"
  by code_simp

section \<open>Responses\<close>

text \<open>
  Let a message of kind \<^verbatim>\<open>response\<close> arrive for a pending request, with a status
  code that is a number, and, in case the code lies in 400 to 599, with a payload that
  is neither \<^verbatim>\<open>null\<close> nor absent and whose \<^verbatim>\<open>message\<close> property
  \<^verbatim>\<open>new Error\<close> accepts. Then the entry is taken out and the callback of the
  request is called with four arguments: the failure made from that property exactly
  when the code lies in 400 to 599 (both bounds included) and \<^verbatim>\<open>null\<close> otherwise,
  then the payload, the status code and the headers.
\<close>

lemma response_delivered:
  assumes "json_parse E data = Inr update" and "correlated E update"
    and "map_of (requests s) (id_key E update) = Some (RequestK callback)"
    and "get_prop update ''nes'' = Str ''response''"
    and "get_prop update ''statusCode'' = Num n"
    and "400 \<le> n \<and> n \<le> 599 \<longrightarrow>
           \<not> nullish (get_prop update ''payload'') \<and>
           new_Error E (get_prop (get_prop update ''payload'') ''message'') = Inr err"
  shows "onMessage E data s =
           call_cb E callback
             [if 400 \<le> n \<and> n \<le> 599 then AErr err else AVal Null,
              AVal (get_prop update ''payload''), AVal (Num n),
              AVal (get_prop update ''headers'')]
             (emit (Deliver (id_key E update) (RequestK callback) None update)
                (s\<lparr>requests := AList.delete (id_key E update) (requests s)\<rparr>))"
proof -
  from assms(2) obtain k where k: "to_string E (get_prop update ''id'') = Inr k"
    by (auto simp: correlated_def keyed_def split: sum.splits)
  then have ik: "id_key E update = k" by (simp add: id_key_def)
  from assms(2) have n: "\<not> nullish update" and b: "get_prop update ''nes'' \<noteq> Str ''broadcast''"
    by (simp_all add: correlated_def)
  have "onMessage E data s =
          call_pending E (RequestK callback) None update
            (emit (Deliver (id_key E update) (RequestK callback) None update)
               (s\<lparr>requests := AList.delete (id_key E update) (requests s)\<rparr>))"
    using assms(1,3) n b k ik by (simp add: onMessage_def parse_def Let_def)
  also have "\<dots> = call_cb E callback
             [if 400 \<le> n \<and> n \<le> 599 then AErr err else AVal Null,
              AVal (get_prop update ''payload''), AVal (Num n),
              AVal (get_prop update ''headers'')]
             (emit (Deliver (id_key E update) (RequestK callback) None update)
                (s\<lparr>requests := AList.delete (id_key E update) (requests s)\<rparr>))"
    using assms(4,5,6) n by (simp add: status_number)
  finally show ?thesis .
qed

text \<open>
  Claim C6. For every response that arrives for a pending request, the callback of the
  request should be called with \<open>(failure or null, payload, status code, headers)\<close>,
  the failure being made of the payload's \<^verbatim>\<open>message\<close> exactly when the status code
  lies in 400 to 599. The code reads the failure text by
  \<^verbatim>\<open>update.payload.message\<close> without testing the payload, so a response with a
  status code in 400 to 599 and a payload that is \<^verbatim>\<open>null\<close> (or absent) makes the
  function of \<^verbatim>\<open>request\<close> throw a \<^verbatim>\<open>TypeError\<close> before it calls the callback.
  Below, the response
  \<^verbatim>\<open>{nes: 'response', id: 2, statusCode: 404, payload: null, headers: {}}\<close> arrives
  for the pending request 2: the entry is taken out, the exception leaves the handler of
  the transport, and no application callback is called. On the same state the response
  with status 404 and payload \<^verbatim>\<open>{message: 'not found'}\<close> does give
  \<^verbatim>\<open>(Error('not found'), {message: 'not found'}, 404, headers)\<close>.
\<close>

theorem response_without_payload_throws:
  "json_parse sample_env ''r2null'' =
     Inr (Obj [(''nes'', Str ''response''), (''id'', Num 2), (''statusCode'', Num 404),
               (''payload'', Null), (''headers'', Obj [])])
   \<and> map_of (requests two_pending) ''2'' = Some (RequestK (AppCb 2))
   \<and> fst (onMessage sample_env ''r2null'' two_pending) =
       Some (TypeError ''Cannot read property message of null or undefined'')
   \<and> trace (step sample_env two_pending (Message 0 ''r2null'')) =
       trace two_pending @
       [Deliver ''2'' (RequestK (AppCb 2)) None
          (Obj [(''nes'', Str ''response''), (''id'', Num 2), (''statusCode'', Num 404),
                (''payload'', Null), (''headers'', Obj [])]),
        Uncaught (TypeError ''Cannot read property message of null or undefined'')]
   \<and> app_calls (trace (step sample_env two_pending (Message 0 ''r2null''))) =
       app_calls (trace two_pending)
   \<and> map_of (requests (step sample_env two_pending (Message 0 ''r2null''))) ''2'' = None
   \<and> trace (step sample_env two_pending (Message 0 ''r2'')) =
       trace two_pending @
       [Deliver ''2'' (RequestK (AppCb 2)) None reply2,
        AppCallback 2 [AErr (Error ''not found''), AVal (Obj [(''message'', Str ''not found'')]),
                       AVal (Num 404), AVal (Obj [])]]"
  by code_simp

end
